theory Spec2Isabelle
  imports Complex_Main
begin

section \<open>Python values\<close>

text \<open>
  The program is \<^verbatim>\<open>examples/browser-debugging/scripts/cdp-console.py\<close>, a client of
  the Chrome DevTools Protocol. Every value it handles comes out of \<^verbatim>\<open>json.loads\<close>
  or is built from such values, so the values of the model are JSON values as Python
  represents them. A Python \<^verbatim>\<open>dict\<close> is an association list in insertion order; its
  keys are the hashable scalars (\<open>pykey\<close>), since the program stores entries under
  names it reads out of protocol frames (\<^verbatim>\<open>obj[name] = ...\<close>).
  Two things are left out of the model: JSON numbers with a fraction or an exponent
  (Python \<^verbatim>\<open>float\<close>), and the code points of a string (a string is its UTF-8 bytes,
  and \<^verbatim>\<open>repr\<close> takes every byte above 0x7F as printable).
\<close>

datatype pykey = KStr string | KInt int | KBool bool | KNone

datatype json =
    JNull
  | JBool bool
  | JInt int
  | JStr string
  | JArr "json list"
  | JObj "(pykey \<times> json) list"

text \<open>
  Exceptions are values. Each carries the text that \<^verbatim>\<open>str(e)\<close> gives; the wording is
  CPython's and no result below depends on it. \<open>TimeoutError\<close> is
  \<^verbatim>\<open>asyncio.TimeoutError\<close>, \<open>JSONDecodeError\<close> is \<^verbatim>\<open>json.JSONDecodeError\<close>; all
  of them are subclasses of \<^verbatim>\<open>Exception\<close>.
\<close>

datatype py_exn =
    TimeoutError
  | JSONDecodeError string
  | AttributeError string
  | TypeError string
  | KeyError string
  | InvalidStateError string
  | ConnectionClosed string
  | OtherException string

fun exn_str :: "py_exn \<Rightarrow> string" where
  "exn_str TimeoutError = []"
| "exn_str (JSONDecodeError m) = m"
| "exn_str (AttributeError m) = m"
| "exn_str (TypeError m) = m"
| "exn_str (KeyError m) = m"
| "exn_str (InvalidStateError m) = m"
| "exn_str (ConnectionClosed m) = m"
| "exn_str (OtherException m) = m"

definition bindE :: "py_exn + 'a \<Rightarrow> ('a \<Rightarrow> py_exn + 'b) \<Rightarrow> py_exn + 'b" where
  "bindE m f = (case m of Inl e \<Rightarrow> Inl e | Inr x \<Rightarrow> f x)"

subsection \<open>Text: \<^verbatim>\<open>str.join\<close>, \<^verbatim>\<open>str.split\<close>, decimal numerals\<close>

fun join :: "string \<Rightarrow> string list \<Rightarrow> string" where
  "join sep [] = []"
| "join sep [x] = x"
| "join sep (x # y # ys) = x @ sep @ join sep (y # ys)"

text \<open>\<^verbatim>\<open>s.split("\n")\<close>: the pieces between line feeds, at least one piece.\<close>

fun split_nl :: "string \<Rightarrow> string list" where
  "split_nl [] = [[]]"
| "split_nl (c # cs) =
     (if c = CHR 0x0A then [] # split_nl cs
      else (case split_nl cs of [] \<Rightarrow> [[c]] | l # ls \<Rightarrow> (c # l) # ls))"

fun contains_str :: "string \<Rightarrow> string \<Rightarrow> bool" where
  "contains_str needle [] = (needle = [])"
| "contains_str needle (c # cs) =
     (take (length needle) (c # cs) = needle \<or> contains_str needle cs)"

fun show_nat :: "nat \<Rightarrow> string" where
  "show_nat n =
     (if n < 10 then [''0123456789'' ! n]
      else show_nat (n div 10) @ [''0123456789'' ! (n mod 10)])"

declare show_nat.simps [simp del]

definition show_int :: "int \<Rightarrow> string" where
  "show_int i = (if i < 0 then CHR ''-'' # show_nat (nat (- i)) else show_nat (nat i))"

definition hex_digit :: "nat \<Rightarrow> char" where
  "hex_digit n = ''0123456789abcdef'' ! n"

definition hex2 :: "char \<Rightarrow> string" where
  "hex2 c = [hex_digit (of_char c div 16), hex_digit (of_char c mod 16)]"

subsection \<open>\<^verbatim>\<open>json.dumps(v, ensure_ascii=False, indent=2)\<close>\<close>

definition json_escape_char :: "char \<Rightarrow> string" where
  "json_escape_char c =
     (if c = CHR 0x22 then [CHR 0x5C, CHR 0x22]
      else if c = CHR 0x5C then [CHR 0x5C, CHR 0x5C]
      else if c = CHR 0x0A then [CHR 0x5C, CHR ''n'']
      else if c = CHR 0x0D then [CHR 0x5C, CHR ''r'']
      else if c = CHR 0x09 then [CHR 0x5C, CHR ''t'']
      else if c = CHR 0x08 then [CHR 0x5C, CHR ''b'']
      else if c = CHR 0x0C then [CHR 0x5C, CHR ''f'']
      else if (of_char c :: nat) < 32 then [CHR 0x5C, CHR ''u'', CHR ''0'', CHR ''0''] @ hex2 c
      else [c])"

definition json_quote :: "string \<Rightarrow> string" where
  "json_quote s = CHR 0x22 # concat (map json_escape_char s) @ [CHR 0x22]"

fun dumps_key :: "pykey \<Rightarrow> string" where
  "dumps_key (KStr s) = json_quote s"
| "dumps_key (KInt i) = json_quote (show_int i)"
| "dumps_key (KBool b) = json_quote (if b then ''true'' else ''false'')"
| "dumps_key KNone = json_quote ''null''"

fun indent_str :: "nat \<Rightarrow> string" where
  "indent_str 0 = []"
| "indent_str (Suc n) = CHR '' '' # CHR '' '' # indent_str n"

definition newline_indent :: "nat \<Rightarrow> string" where
  "newline_indent lvl = CHR 0x0A # indent_str lvl"

fun dumps_at :: "nat \<Rightarrow> json \<Rightarrow> string" where
  "dumps_at lvl JNull = ''null''"
| "dumps_at lvl (JBool b) = (if b then ''true'' else ''false'')"
| "dumps_at lvl (JInt i) = show_int i"
| "dumps_at lvl (JStr s) = json_quote s"
| "dumps_at lvl (JArr xs) =
     (if xs = [] then ''[]''
      else ''['' @ newline_indent (Suc lvl)
           @ join ('','' @ newline_indent (Suc lvl)) (map (dumps_at (Suc lvl)) xs)
           @ newline_indent lvl @ '']'')"
| "dumps_at lvl (JObj kvs) =
     (if kvs = [] then ''{}''
      else ''{'' @ newline_indent (Suc lvl)
           @ join ('','' @ newline_indent (Suc lvl))
               (map (\<lambda>(k, v). dumps_key k @ '': '' @ dumps_at (Suc lvl) v) kvs)
           @ newline_indent lvl @ ''}'')"

definition json_dumps_indent2 :: "json \<Rightarrow> string" where
  "json_dumps_indent2 v = dumps_at 0 v"

subsection \<open>\<^verbatim>\<open>str\<close> and \<^verbatim>\<open>repr\<close>\<close>

definition repr_char :: "char \<Rightarrow> char \<Rightarrow> string" where
  "repr_char q c =
     (if c = q \<or> c = CHR 0x5C then [CHR 0x5C, c]
      else if c = CHR 0x09 then [CHR 0x5C, CHR ''t'']
      else if c = CHR 0x0A then [CHR 0x5C, CHR ''n'']
      else if c = CHR 0x0D then [CHR 0x5C, CHR ''r'']
      else if (of_char c :: nat) < 32 \<or> c = CHR 0x7F then [CHR 0x5C, CHR ''x''] @ hex2 c
      else [c])"

definition repr_str :: "string \<Rightarrow> string" where
  "repr_str s =
     (let q = (if CHR 0x27 \<in> set s \<and> CHR 0x22 \<notin> set s then CHR 0x22 else CHR 0x27)
      in q # concat (map (repr_char q) s) @ [q])"

fun repr_key :: "pykey \<Rightarrow> string" where
  "repr_key (KStr s) = repr_str s"
| "repr_key (KInt i) = show_int i"
| "repr_key (KBool b) = (if b then ''True'' else ''False'')"
| "repr_key KNone = ''None''"

fun py_repr :: "json \<Rightarrow> string" where
  "py_repr JNull = ''None''"
| "py_repr (JBool b) = (if b then ''True'' else ''False'')"
| "py_repr (JInt i) = show_int i"
| "py_repr (JStr s) = repr_str s"
| "py_repr (JArr xs) = ''['' @ join '', '' (map py_repr xs) @ '']''"
| "py_repr (JObj kvs) =
     ''{'' @ join '', '' (map (\<lambda>(k, v). repr_key k @ '': '' @ py_repr v) kvs) @ ''}''"

text \<open>\<^verbatim>\<open>str(v)\<close>, also what an f-string puts in place of \<^verbatim>\<open>{v}\<close>.\<close>

definition py_str :: "json \<Rightarrow> string" where
  "py_str v = (case v of JStr s \<Rightarrow> s | _ \<Rightarrow> py_repr v)"

subsection \<open>Dynamically typed operations\<close>

fun type_name :: "json \<Rightarrow> string" where
  "type_name JNull = ''NoneType''"
| "type_name (JBool b) = ''bool''"
| "type_name (JInt i) = ''int''"
| "type_name (JStr s) = ''str''"
| "type_name (JArr xs) = ''list''"
| "type_name (JObj kvs) = ''dict''"

definition no_attribute :: "json \<Rightarrow> string \<Rightarrow> py_exn" where
  "no_attribute v a =
     AttributeError ([CHR 0x27] @ type_name v @ [CHR 0x27] @ '' object has no attribute ''
                     @ [CHR 0x27] @ a @ [CHR 0x27])"

text \<open>Keys compare as Python compares them: \<^verbatim>\<open>True == 1\<close> and \<^verbatim>\<open>False == 0\<close>.\<close>

definition key_norm :: "pykey \<Rightarrow> pykey" where
  "key_norm k = (case k of KBool b \<Rightarrow> KInt (if b then 1 else 0) | _ \<Rightarrow> k)"

definition key_eq :: "pykey \<Rightarrow> pykey \<Rightarrow> bool" where
  "key_eq a b = (key_norm a = key_norm b)"

fun dict_lookup :: "(pykey \<times> json) list \<Rightarrow> pykey \<Rightarrow> json option" where
  "dict_lookup [] k = None"
| "dict_lookup ((k', v) # kvs) k = (if key_eq k' k then Some v else dict_lookup kvs k)"

text \<open>\<^verbatim>\<open>d[k] = v\<close> on a dict: an equal key keeps its place and its first spelling.\<close>

fun dict_set :: "(pykey \<times> json) list \<Rightarrow> pykey \<Rightarrow> json \<Rightarrow> (pykey \<times> json) list" where
  "dict_set [] k v = [(k, v)]"
| "dict_set ((k', v') # kvs) k v =
     (if key_eq k' k then (k', v) # kvs else (k', v') # dict_set kvs k v)"

text \<open>Hashing a value to use it as a key: lists and dicts are unhashable.\<close>

fun to_key :: "json \<Rightarrow> py_exn + pykey" where
  "to_key JNull = Inr KNone"
| "to_key (JBool b) = Inr (KBool b)"
| "to_key (JInt i) = Inr (KInt i)"
| "to_key (JStr s) = Inr (KStr s)"
| "to_key (JArr xs) = Inl (TypeError (''unhashable type: '' @ [CHR 0x27] @ ''list'' @ [CHR 0x27]))"
| "to_key (JObj kvs) = Inl (TypeError (''unhashable type: '' @ [CHR 0x27] @ ''dict'' @ [CHR 0x27]))"

fun key_json :: "pykey \<Rightarrow> json" where
  "key_json (KStr s) = JStr s"
| "key_json (KInt i) = JInt i"
| "key_json (KBool b) = JBool b"
| "key_json KNone = JNull"

text \<open>\<^verbatim>\<open>obj[name] = v\<close> where \<open>obj\<close> is a dict the program built itself.\<close>

definition setitem :: "(pykey \<times> json) list \<Rightarrow> json \<Rightarrow> json \<Rightarrow> py_exn + (pykey \<times> json) list" where
  "setitem obj name v = bindE (to_key name) (\<lambda>k. Inr (dict_set obj k v))"

text \<open>\<^verbatim>\<open>d.get(k, default)\<close> with a literal key: only a dict has the method.\<close>

definition py_get :: "json \<Rightarrow> string \<Rightarrow> json \<Rightarrow> py_exn + json" where
  "py_get d k dflt =
     (case d of
        JObj kvs \<Rightarrow> Inr (case dict_lookup kvs (KStr k) of Some v \<Rightarrow> v | None \<Rightarrow> dflt)
      | _ \<Rightarrow> Inl (no_attribute d ''get''))"

text \<open>
  \<^verbatim>\<open>"k" in c\<close> with a literal key: key membership in a dict, element membership in a
  list, substring test in a string, a TypeError elsewhere.
\<close>

definition py_in :: "string \<Rightarrow> json \<Rightarrow> py_exn + bool" where
  "py_in k c =
     (case c of
        JObj kvs \<Rightarrow> Inr (dict_lookup kvs (KStr k) \<noteq> None)
      | JArr xs \<Rightarrow> Inr (JStr k \<in> set xs)
      | JStr s \<Rightarrow> Inr (contains_str k s)
      | _ \<Rightarrow> Inl (TypeError (''argument of type '' @ [CHR 0x27] @ type_name c @ [CHR 0x27]
                              @ '' is not iterable'')))"

text \<open>\<^verbatim>\<open>c["k"]\<close> with a literal key.\<close>

definition py_getitem :: "json \<Rightarrow> string \<Rightarrow> py_exn + json" where
  "py_getitem c k =
     (case c of
        JObj kvs \<Rightarrow> (case dict_lookup kvs (KStr k) of
                       Some v \<Rightarrow> Inr v
                     | None \<Rightarrow> Inl (KeyError (repr_str k)))
      | JArr xs \<Rightarrow> Inl (TypeError ''list indices must be integers or slices, not str'')
      | JStr s \<Rightarrow> Inl (TypeError (''string indices must be integers, not '' @ [CHR 0x27]
                                   @ ''str'' @ [CHR 0x27]))
      | _ \<Rightarrow> Inl (TypeError ([CHR 0x27] @ type_name c @ [CHR 0x27]
                              @ '' object is not subscriptable'')))"

text \<open>\<^verbatim>\<open>for x in c\<close>: the elements of a list, the keys of a dict, the characters of a string.\<close>

definition py_iter :: "json \<Rightarrow> py_exn + json list" where
  "py_iter c =
     (case c of
        JArr xs \<Rightarrow> Inr xs
      | JObj kvs \<Rightarrow> Inr (map (key_json \<circ> fst) kvs)
      | JStr s \<Rightarrow> Inr (map (\<lambda>ch. JStr [ch]) s)
      | _ \<Rightarrow> Inl (TypeError ([CHR 0x27] @ type_name c @ [CHR 0x27]
                              @ '' object is not iterable'')))"

fun py_truthy :: "json \<Rightarrow> bool" where
  "py_truthy JNull = False"
| "py_truthy (JBool b) = b"
| "py_truthy (JInt i) = (i \<noteq> 0)"
| "py_truthy (JStr s) = (s \<noteq> [])"
| "py_truthy (JArr xs) = (xs \<noteq> [])"
| "py_truthy (JObj kvs) = (kvs \<noteq> [])"

text \<open>\<^verbatim>\<open>" ".join(parts)\<close>: every item has to be a string.\<close>

fun strs_of :: "nat \<Rightarrow> json list \<Rightarrow> py_exn + string list" where
  "strs_of i [] = Inr []"
| "strs_of i (v # vs) =
     (case v of
        JStr s \<Rightarrow> bindE (strs_of (Suc i) vs) (\<lambda>ss. Inr (s # ss))
      | _ \<Rightarrow> Inl (TypeError (''sequence item '' @ show_nat i @ '': expected str instance, ''
                              @ type_name v @ '' found'')))"

definition py_join :: "string \<Rightarrow> json list \<Rightarrow> py_exn + string" where
  "py_join sep parts = bindE (strs_of 0 parts) (\<lambda>ss. Inr (join sep ss))"

text \<open>\<^verbatim>\<open>s.split("\n")\<close> on a value: only a string has the method.\<close>

definition py_split_nl :: "json \<Rightarrow> py_exn + string list" where
  "py_split_nl v = (case v of JStr s \<Rightarrow> Inr (split_nl s) | _ \<Rightarrow> Inl (no_attribute v ''split''))"

section \<open>The session state\<close>

text \<open>
  The fields of \<^verbatim>\<open>CDPConsole\<close>, and beside them what the object acts on: the asyncio
  futures it creates (a store, addressed by position, because the \<^verbatim>\<open>pending\<close> dict
  and the coroutine awaiting a reply share each future), the frames written to the
  channel and the calls of \<^verbatim>\<open>print\<close>, one entry per call.
\<close>

datatype ws_state = WsNone | WsOpen | WsClosed string

datatype fut_state = FutPending | FutFinished json | FutCancelled

record state =
  ws_url :: string
  ws :: ws_state
  msg_id :: int
  pending :: "int \<rightharpoonup> nat"
  running :: bool
  futures :: "fut_state list"
  sent :: "json list"
  out :: "string list"

definition init :: "string \<Rightarrow> state" where
  "init url =
     \<lparr>ws_url = url, ws = WsNone, msg_id = 0, pending = Map.empty, running = True,
      futures = [], sent = [], out = []\<rparr>"

definition print_line :: "string \<Rightarrow> state \<Rightarrow> state" where
  "print_line text s = s\<lparr>out := out s @ [text]\<rparr>"

text \<open>
  \<^verbatim>\<open>await self.ws.send(json.dumps(frame))\<close>. The channel is an external primitive:
  a send on an open channel appends the frame, a send on a closed one raises
  \<^verbatim>\<open>ConnectionClosed\<close>, and with \<^verbatim>\<open>self.ws\<close> still \<^verbatim>\<open>None\<close> the attribute lookup fails.
\<close>

definition ws_send :: "json \<Rightarrow> state \<Rightarrow> (py_exn + unit) \<times> state" where
  "ws_send frame s =
     (case ws s of
        WsOpen \<Rightarrow> (Inr (), s\<lparr>sent := sent s @ [frame]\<rparr>)
      | WsClosed reason \<Rightarrow> (Inl (ConnectionClosed reason), s)
      | WsNone \<Rightarrow> (Inl (no_attribute JNull ''send''), s))"

definition command :: "int \<Rightarrow> string \<Rightarrow> (pykey \<times> json) list" where
  "command i method = [(KStr ''id'', JInt i), (KStr ''method'', JStr method)]"

text \<open>
  \<^verbatim>\<open>connect\<close>, lines 25-35. \<open>dial\<close> is what \<^verbatim>\<open>websockets.connect\<close> under its
  10 second limit came to: \<open>Some e\<close> when it raised.
\<close>

definition connect :: "py_exn option \<Rightarrow> state \<Rightarrow> (py_exn + unit) \<times> state" where
  "connect dial s =
     (case dial of
        Some e \<Rightarrow> (Inl e, s)
      | None \<Rightarrow>
          (case ws_send (JObj (command 1 ''Runtime.enable'')) (s\<lparr>ws := WsOpen\<rparr>) of
             (Inl e, s1) \<Rightarrow> (Inl e, s1)
           | (Inr u1, s1) \<Rightarrow>
               (case ws_send (JObj (command 2 ''Console.enable'')) s1 of
                  (Inl e, s2) \<Rightarrow> (Inl e, s2)
                | (Inr u2, s2) \<Rightarrow>
                    (case ws_send (JObj (command 3 ''Log.enable'')) s2 of
                       (Inl e, s3) \<Rightarrow> (Inl e, s3)
                     | (Inr u3, s3) \<Rightarrow> (Inr (), s3\<lparr>msg_id := 3\<rparr>)))))"

text \<open>\<^verbatim>\<open>close\<close>, lines 227-230.\<close>

definition close :: "state \<Rightarrow> state" where
  "close s =
     (let s1 = s\<lparr>running := False\<rparr>
      in case ws s1 of
           WsNone \<Rightarrow> s1
         | WsOpen \<Rightarrow> s1\<lparr>ws := WsClosed ''sent 1000 (OK); then received 1000 (OK)''\<rparr>
         | WsClosed reason \<Rightarrow> s1)"

section \<open>The correlator\<close>

text \<open>
  A coroutine that awaits is suspended until something else in the event loop makes its
  awaitable ready. What the rest of the system does in the meantime is the environment
  \<open>env\<close>: \<open>env i = Some (t, reply)\<close> says that \<open>t\<close> seconds after request \<open>i\<close> was
  written to the channel, \<^verbatim>\<open>handle_message\<close> is called on a frame \<open>reply\<close> that it
  routes to request \<open>i\<close> (lines 162-165: the entry leaves \<^verbatim>\<open>pending\<close> and the future
  gets the frame as its result); \<open>env i = None\<close> says that no such call happens.
  A coroutine ends by returning, by raising, or by being cancelled from outside.
\<close>

type_synonym env = "int \<Rightarrow> (real \<times> json) option"

definition no_reply :: env where
  "no_reply i = None"

datatype outcome = Returned json | Raised py_exn | Cancelled

text \<open>\<^verbatim>\<open>future.set_result(v)\<close>: only a future that is still pending takes a result.\<close>

definition set_result :: "nat \<Rightarrow> json \<Rightarrow> state \<Rightarrow> (py_exn + unit) \<times> state" where
  "set_result fut v s =
     (if fut < length (futures s) \<and> futures s ! fut = FutPending
      then (Inr (), s\<lparr>futures := (futures s)[fut := FutFinished v]\<rparr>)
      else (Inl (InvalidStateError ''invalid state''), s))"

text \<open>
  \<^verbatim>\<open>await asyncio.wait_for(future, timeout=timeout)\<close> inside \<^verbatim>\<open>send_command\<close>, lines
  49-53, for request \<open>i\<close> with future \<open>fut\<close>. \<open>deadline\<close> is the moment an
  enclosing \<^verbatim>\<open>wait_for\<close> cancels the coroutine, if there is one. Three ways out:
  the reply comes first and is returned; the enclosing limit comes first, the future is
  cancelled and \<^verbatim>\<open>CancelledError\<close> passes through \<^verbatim>\<open>except asyncio.TimeoutError\<close>, so
  the entry stays in \<^verbatim>\<open>pending\<close>; the request's own limit comes first, the future is
  cancelled, the entry is popped and the timeout result is returned.
\<close>

definition await_reply :: "env \<Rightarrow> int \<Rightarrow> nat \<Rightarrow> real \<Rightarrow> real option \<Rightarrow> state \<Rightarrow> outcome \<times> state" where
  "await_reply env i fut timeout deadline s =
     (let limit = (case deadline of None \<Rightarrow> timeout | Some d \<Rightarrow> min d timeout);
          in_time = (case env i of None \<Rightarrow> None
                     | Some (t, reply) \<Rightarrow> if t < limit then Some reply else None)
      in case in_time of
           Some reply \<Rightarrow>
             (Returned reply,
              s\<lparr>pending := (pending s)(i := None),
                futures := (futures s)[fut := FutFinished reply]\<rparr>)
         | None \<Rightarrow>
             (case deadline of
                Some d \<Rightarrow>
                  if d \<le> timeout
                  then (Cancelled, s\<lparr>futures := (futures s)[fut := FutCancelled]\<rparr>)
                  else (Returned (JObj [(KStr ''error'', JStr ''timeout'')]),
                        s\<lparr>pending := (pending s)(i := None),
                          futures := (futures s)[fut := FutCancelled]\<rparr>)
              | None \<Rightarrow>
                  (Returned (JObj [(KStr ''error'', JStr ''timeout'')]),
                   s\<lparr>pending := (pending s)(i := None),
                     futures := (futures s)[fut := FutCancelled]\<rparr>)))"

text \<open>
  \<^verbatim>\<open>send_command\<close>, lines 37-53; \<open>params = JNull\<close> is the default \<^verbatim>\<open>None\<close>.
  \<open>send_command_start\<close> is lines 39-48, up to the point where the coroutine
  suspends: it gives the request's id and the address of its future.
\<close>

definition send_command_start :: "string \<Rightarrow> json \<Rightarrow> state \<Rightarrow> (py_exn + int \<times> nat) \<times> state" where
  "send_command_start method params s =
     (let i = msg_id s + 1;
          s1 = s\<lparr>msg_id := i\<rparr>;
          msg = (if py_truthy params then dict_set (command i method) (KStr ''params'') params
                 else command i method);
          fut = length (futures s1);
          s2 = s1\<lparr>futures := futures s1 @ [FutPending], pending := (pending s1)(i \<mapsto> fut)\<rparr>
      in case ws_send (JObj msg) s2 of
           (Inl e, s3) \<Rightarrow> (Inl e, s3)
         | (Inr u, s3) \<Rightarrow> (Inr (i, fut), s3))"

definition send_command ::
  "env \<Rightarrow> string \<Rightarrow> json \<Rightarrow> real \<Rightarrow> real option \<Rightarrow> state \<Rightarrow> outcome \<times> state" where
  "send_command env method params timeout deadline s =
     (case send_command_start method params s of
        (Inl e, s') \<Rightarrow> (Raised e, s')
      | (Inr (i, fut), s') \<Rightarrow> await_reply env i fut timeout deadline s')"

text \<open>
  \<^verbatim>\<open>await asyncio.wait_for(coro, timeout=limit)\<close> around a coroutine: the coroutine
  runs with the limit as its deadline, and its cancellation comes out as
  \<^verbatim>\<open>asyncio.TimeoutError\<close>.
\<close>

definition wait_for ::
  "real \<Rightarrow> (real option \<Rightarrow> state \<Rightarrow> outcome \<times> state) \<Rightarrow> state \<Rightarrow> (py_exn + json) \<times> state" where
  "wait_for limit coro s =
     (case coro (Some limit) s of
        (Returned v, s') \<Rightarrow> (Inr v, s')
      | (Raised e, s') \<Rightarrow> (Inl e, s')
      | (Cancelled, s') \<Rightarrow> (Inl TimeoutError, s'))"

section \<open>The materializer\<close>

text \<open>\<^verbatim>\<open>preview_to_dict\<close>, lines 100-108.\<close>

fun preview_props :: "json list \<Rightarrow> (pykey \<times> json) list \<Rightarrow> py_exn + (pykey \<times> json) list" where
  "preview_props [] obj = Inr obj"
| "preview_props (prop # props) obj =
     (case bindE (py_get prop ''name'' (JStr ''?'')) (\<lambda>name.
             bindE (py_get prop ''description'' (JStr ''...'')) (\<lambda>d.
               bindE (py_get prop ''value'' d) (\<lambda>v. setitem obj name v))) of
        Inl e \<Rightarrow> Inl e
      | Inr obj' \<Rightarrow> preview_props props obj')"

definition preview_to_dict :: "json \<Rightarrow> py_exn + json" where
  "preview_to_dict preview =
     bindE (py_get preview ''properties'' (JArr [])) (\<lambda>ps.
       bindE (py_iter ps) (\<lambda>props.
         bindE (preview_props props []) (\<lambda>obj.
           bindE (py_get preview ''overflow'' JNull) (\<lambda>overflow.
             if py_truthy overflow
             then Inr (JObj (dict_set obj (KStr ''...'') (JStr ''(truncated)'')))
             else Inr (JObj obj)))))"

text \<open>The two \<^verbatim>\<open>except\<close> clauses of \<^verbatim>\<open>get_object_properties\<close>, lines 95-98.\<close>

definition gop_except :: "py_exn + json \<Rightarrow> py_exn + json" where
  "gop_except r =
     (case r of
        Inr v \<Rightarrow> Inr v
      | Inl TimeoutError \<Rightarrow> Inr (JStr ''[Object: timeout]'')
      | Inl e \<Rightarrow> Inr (JStr (''[Object: '' @ exn_str e @ '']'')))"

definition get_properties_params :: "json \<Rightarrow> json" where
  "get_properties_params object_id =
     JObj [(KStr ''objectId'', object_id), (KStr ''ownProperties'', JBool True),
           (KStr ''generatePreview'', JBool True)]"

text \<open>
  \<^verbatim>\<open>get_object_properties\<close>, lines 55-98: \<open>gop_try\<close> is the body of the \<^verbatim>\<open>try\<close>,
  \<open>gop_loop\<close> the \<^verbatim>\<open>for\<close> loop over the properties with the dict \<open>obj\<close> built so
  far, \<open>gop_step\<close> one run of the loop body.
\<close>

function get_object_properties :: "env \<Rightarrow> json \<Rightarrow> int \<Rightarrow> state \<Rightarrow> (py_exn + json) \<times> state"
  and gop_try :: "env \<Rightarrow> json \<Rightarrow> int \<Rightarrow> state \<Rightarrow> (py_exn + json) \<times> state"
  and gop_loop :: "env \<Rightarrow> int \<Rightarrow> json list \<Rightarrow> (pykey \<times> json) list \<Rightarrow> state \<Rightarrow> (py_exn + json) \<times> state"
  and gop_step :: "env \<Rightarrow> int \<Rightarrow> json \<Rightarrow> (pykey \<times> json) list \<Rightarrow> state
                   \<Rightarrow> (py_exn + (pykey \<times> json) list) \<times> state"
where
  "get_object_properties env object_id max_depth s =
     (case gop_try env object_id max_depth s of (r, s') \<Rightarrow> (gop_except r, s'))"
| "gop_try env object_id max_depth s =
     (case wait_for 2 (send_command env ''Runtime.getProperties''
                         (get_properties_params object_id) 5) s of
        (Inl e, s1) \<Rightarrow> (Inl e, s1)
      | (Inr result, s1) \<Rightarrow>
          (case py_in ''result'' result of
             Inl e \<Rightarrow> (Inl e, s1)
           | Inr False \<Rightarrow> (Inr (JStr ''[Object]''), s1)
           | Inr True \<Rightarrow>
               (case bindE (py_getitem result ''result'') py_iter of
                  Inl e \<Rightarrow> (Inl e, s1)
                | Inr props \<Rightarrow> gop_loop env max_depth props [] s1)))"
| "gop_loop env max_depth [] obj s = (Inr (JObj obj), s)"
| "gop_loop env max_depth (prop # props) obj s =
     (case gop_step env max_depth prop obj s of
        (Inl e, s') \<Rightarrow> (Inl e, s')
      | (Inr obj', s') \<Rightarrow> gop_loop env max_depth props obj' s')"
| "gop_step env max_depth prop obj s =
     (case py_get prop ''name'' (JStr ''?'') of
        Inl e \<Rightarrow> (Inl e, s)
      | Inr name \<Rightarrow>
     (case py_get prop ''value'' (JObj []) of
        Inl e \<Rightarrow> (Inl e, s)
      | Inr value_desc \<Rightarrow>
     (case py_in ''value'' value_desc of
        Inl e \<Rightarrow> (Inl e, s)
      | Inr True \<Rightarrow> (bindE (py_getitem value_desc ''value'') (setitem obj name), s)
      | Inr False \<Rightarrow>
     (case py_get value_desc ''type'' JNull of
        Inl e \<Rightarrow> (Inl e, s)
      | Inr ty \<Rightarrow>
          if ty = JStr ''object'' \<and> max_depth > 0 then
            (case py_in ''objectId'' value_desc of
               Inl e \<Rightarrow> (Inl e, s)
             | Inr True \<Rightarrow>
                 (case py_getitem value_desc ''objectId'' of
                    Inl e \<Rightarrow> (Inl e, s)
                  | Inr nested_id \<Rightarrow>
                      (case get_object_properties env nested_id (max_depth - 1) s of
                         (r, s') \<Rightarrow> (bindE r (setitem obj name), s')))
             | Inr False \<Rightarrow>
                 (case py_in ''preview'' value_desc of
                    Inl e \<Rightarrow> (Inl e, s)
                  | Inr True \<Rightarrow>
                      (bindE (py_getitem value_desc ''preview'') (\<lambda>p.
                         bindE (preview_to_dict p) (setitem obj name)), s)
                  | Inr False \<Rightarrow>
                      (bindE (py_get value_desc ''description'' (JStr ''[Object]''))
                         (setitem obj name), s)))
          else
            (case py_in ''description'' value_desc of
               Inl e \<Rightarrow> (Inl e, s)
             | Inr True \<Rightarrow> (bindE (py_getitem value_desc ''description'') (setitem obj name), s)
             | Inr False \<Rightarrow>
                 (case py_get value_desc ''type'' JNull of
                    Inl e \<Rightarrow> (Inl e, s)
                  | Inr ty' \<Rightarrow>
                      if ty' = JStr ''undefined''
                      then (setitem obj name (JStr ''undefined''), s)
                      else (Inr obj, s)))))))"
  by pat_completeness auto
termination
  by (relation "measures
        [\<lambda>x. case x of
               Inl (Inl (env, object_id, d, s)) \<Rightarrow> nat d
             | Inl (Inr (env, object_id, d, s)) \<Rightarrow> nat d
             | Inr (Inl (env, d, props, obj, s)) \<Rightarrow> nat d
             | Inr (Inr (env, d, prop, obj, s)) \<Rightarrow> nat d,
         \<lambda>x. case x of
               Inl (Inl a) \<Rightarrow> 3
             | Inl (Inr a) \<Rightarrow> 2
             | Inr (Inl a) \<Rightarrow> 1
             | Inr (Inr a) \<Rightarrow> 0,
         \<lambda>x. case x of
               Inr (Inl (env, d, props, obj, s)) \<Rightarrow> length props
             | _ \<Rightarrow> 0]") auto

declare get_object_properties.simps [simp del] gop_try.simps [simp del] gop_step.simps [simp del]

section \<open>The argument formatter\<close>

text \<open>
  Lines 128-132 and 138-142 of \<^verbatim>\<open>format_arg\<close>, which are the same: the dict \<open>obj\<close>
  pretty-printed, under its class name unless that is \<^verbatim>\<open>Object\<close> or \<^verbatim>\<open>Array\<close>.
\<close>

definition format_object :: "json \<Rightarrow> json \<Rightarrow> py_exn + json \<times> bool" where
  "format_object arg obj =
     bindE (py_get arg ''className'' (JStr [])) (\<lambda>class_name.
       let formatted = json_dumps_indent2 obj
       in if py_truthy class_name \<and> class_name \<noteq> JStr ''Object'' \<and> class_name \<noteq> JStr ''Array''
          then Inr (JStr (''['' @ py_str class_name @ '']'' @ [CHR 0x0A] @ formatted), True)
          else Inr (JStr formatted, True))"

fun is_dict :: "json \<Rightarrow> bool" where
  "is_dict (JObj kvs) = True"
| "is_dict v = False"

fun is_dict_or_list :: "json \<Rightarrow> bool" where
  "is_dict_or_list (JObj kvs) = True"
| "is_dict_or_list (JArr xs) = True"
| "is_dict_or_list v = False"

text \<open>
  \<^verbatim>\<open>format_arg\<close>, lines 110-157. The result is the pair \<^verbatim>\<open>(formatted, is_complex)\<close>;
  the first component is whatever Python object the branch returns, a string in every
  branch but the one of line 146.
\<close>

definition format_arg :: "env \<Rightarrow> json \<Rightarrow> state \<Rightarrow> (py_exn + json \<times> bool) \<times> state" where
  "format_arg env arg s =
     (case py_get arg ''type'' (JStr []) of
        Inl e \<Rightarrow> (Inl e, s)
      | Inr arg_type \<Rightarrow>
     (case py_in ''value'' arg of
        Inl e \<Rightarrow> (Inl e, s)
      | Inr True \<Rightarrow>
          (bindE (py_getitem arg ''value'') (\<lambda>val.
             if is_dict_or_list val then Inr (JStr (json_dumps_indent2 val), True)
             else Inr (JStr (py_str val), False)), s)
      | Inr False \<Rightarrow>
          if arg_type = JStr ''object'' then
            (case py_in ''preview'' arg of
               Inl e \<Rightarrow> (Inl e, s)
             | Inr True \<Rightarrow>
                 (bindE (py_getitem arg ''preview'') (\<lambda>p.
                    bindE (preview_to_dict p) (format_object arg)), s)
             | Inr False \<Rightarrow>
                 (case py_in ''objectId'' arg of
                    Inl e \<Rightarrow> (Inl e, s)
                  | Inr True \<Rightarrow>
                      (case py_getitem arg ''objectId'' of
                         Inl e \<Rightarrow> (Inl e, s)
                       | Inr object_id \<Rightarrow>
                           (case get_object_properties env object_id 2 s of
                              (Inl e, s') \<Rightarrow> (Inl e, s')
                            | (Inr obj, s') \<Rightarrow>
                                (if is_dict obj then format_object arg obj
                                 else Inr (JStr (py_str obj), False), s')))
                  | Inr False \<Rightarrow>
                      (bindE (py_get arg ''description'' (JStr ''[Object]''))
                         (\<lambda>d. Inr (d, False)), s)))
          else
            (case py_in ''description'' arg of
               Inl e \<Rightarrow> (Inl e, s)
             | Inr True \<Rightarrow>
                 (bindE (py_getitem arg ''description'') (\<lambda>d. Inr (JStr (py_str d), False)), s)
             | Inr False \<Rightarrow>
                 if arg_type = JStr ''undefined'' then (Inr (JStr ''undefined'', False), s)
                 else if arg_type = JStr ''null'' then (Inr (JStr ''null'', False), s)
                 else (Inr (JStr (py_str arg), False), s))))"

section \<open>The event dispatcher\<close>

text \<open>
  The test of line 162, \<^verbatim>\<open>"id" in msg and msg["id"] in self.pending\<close>: the request and
  the future the frame answers, if it answers one. The keys of \<^verbatim>\<open>pending\<close> are
  integers, which only an integer or a boolean can equal.
\<close>

definition pending_key :: "pykey \<Rightarrow> int option" where
  "pending_key k =
     (case k of KInt i \<Rightarrow> Some i | KBool b \<Rightarrow> Some (if b then 1 else 0) | _ \<Rightarrow> None)"

definition reply_future :: "json \<Rightarrow> state \<Rightarrow> py_exn + (int \<times> nat) option" where
  "reply_future msg s =
     bindE (py_in ''id'' msg) (\<lambda>has_id.
       if \<not> has_id then Inr None
       else bindE (py_getitem msg ''id'') (\<lambda>v.
              bindE (to_key v) (\<lambda>k.
                case pending_key k of
                  None \<Rightarrow> Inr None
                | Some i \<Rightarrow> (case pending s i of
                              None \<Rightarrow> Inr None
                            | Some fut \<Rightarrow> Inr (Some (i, fut))))))"

text \<open>The loop of lines 178-183, with the two lists it fills.\<close>

fun format_args ::
  "env \<Rightarrow> json list \<Rightarrow> json list \<Rightarrow> json list \<Rightarrow> state
   \<Rightarrow> (py_exn + json list \<times> json list) \<times> state" where
  "format_args env [] simple_parts complex_parts s = (Inr (simple_parts, complex_parts), s)"
| "format_args env (arg # args) simple_parts complex_parts s =
     (case format_arg env arg s of
        (Inl e, s') \<Rightarrow> (Inl e, s')
      | (Inr (formatted, is_complex), s') \<Rightarrow>
          if is_complex then format_args env args simple_parts (complex_parts @ [formatted]) s'
          else format_args env args (simple_parts @ [formatted]) complex_parts s')"

text \<open>The loop of lines 191-194.\<close>

fun print_complex :: "json list \<Rightarrow> state \<Rightarrow> (py_exn + unit) \<times> state" where
  "print_complex [] s = (Inr (), s)"
| "print_complex (obj_str # rest) s =
     (case py_split_nl obj_str of
        Inl e \<Rightarrow> (Inl e, s)
      | Inr lines \<Rightarrow>
          print_complex rest
            (print_line (join [CHR 0x0A] (map (\<lambda>line. ''    '' @ line) lines)) s))"

text \<open>Lines 170-194.\<close>

definition console_api_called :: "env \<Rightarrow> json \<Rightarrow> state \<Rightarrow> (py_exn + unit) \<times> state" where
  "console_api_called env msg s =
     (case bindE (py_get msg ''params'' (JObj [])) (\<lambda>params.
             bindE (py_get params ''type'' (JStr ''log'')) (\<lambda>log_type.
               bindE (py_get params ''args'' (JArr [])) (\<lambda>args.
                 bindE (py_iter args) (\<lambda>arg_list. Inr (log_type, arg_list))))) of
        Inl e \<Rightarrow> (Inl e, s)
      | Inr (log_type, arg_list) \<Rightarrow>
          (case format_args env arg_list [] [] s of
             (Inl e, s') \<Rightarrow> (Inl e, s')
           | (Inr (simple_parts, complex_parts), s') \<Rightarrow>
               if simple_parts \<noteq> [] \<or> complex_parts \<noteq> [] then
                 (case (if simple_parts \<noteq> [] then py_join '' '' simple_parts else Inr []) of
                    Inl e \<Rightarrow> (Inl e, s')
                  | Inr main_line \<Rightarrow>
                      print_complex complex_parts
                        (print_line (''[console.'' @ py_str log_type @ ''] '' @ main_line) s'))
               else (Inr (), s')))"

text \<open>Lines 197-201.\<close>

definition exception_thrown :: "json \<Rightarrow> state \<Rightarrow> (py_exn + unit) \<times> state" where
  "exception_thrown msg s =
     (case bindE (py_get msg ''params'' (JObj [])) (\<lambda>params.
             bindE (py_get params ''exceptionDetails'' (JObj [])) (\<lambda>details.
               bindE (py_get details ''exception'' (JObj [])) (\<lambda>exc.
                 bindE (py_get details ''text'' (JStr ''Unknown error'')) (\<lambda>text.
                   py_get exc ''description'' text)))) of
        Inl e \<Rightarrow> (Inl e, s)
      | Inr desc \<Rightarrow> (Inr (), print_line (''[console.error] EXCEPTION: '' @ py_str desc) s))"

text \<open>Lines 204-209.\<close>

definition log_entry_added :: "json \<Rightarrow> state \<Rightarrow> (py_exn + unit) \<times> state" where
  "log_entry_added msg s =
     (case bindE (py_get msg ''params'' (JObj [])) (\<lambda>params.
             bindE (py_get params ''entry'' (JObj [])) (\<lambda>entry.
               bindE (py_get entry ''level'' (JStr ''info'')) (\<lambda>level.
                 bindE (py_get entry ''text'' (JStr [])) (\<lambda>text. Inr (level, text))))) of
        Inl e \<Rightarrow> (Inl e, s)
      | Inr (level, text) \<Rightarrow>
          if py_truthy text
          then (Inr (), print_line (''['' @ py_str level @ ''] '' @ py_str text) s)
          else (Inr (), s))"

text \<open>\<^verbatim>\<open>handle_message\<close>, lines 159-209.\<close>

definition handle_message :: "env \<Rightarrow> json \<Rightarrow> state \<Rightarrow> (py_exn + unit) \<times> state" where
  "handle_message env msg s =
     (case reply_future msg s of
        Inl e \<Rightarrow> (Inl e, s)
      | Inr (Some (i, fut)) \<Rightarrow> set_result fut msg (s\<lparr>pending := (pending s)(i := None)\<rparr>)
      | Inr None \<Rightarrow>
          (case py_get msg ''method'' (JStr []) of
             Inl e \<Rightarrow> (Inl e, s)
           | Inr method \<Rightarrow>
               if method = JStr ''Runtime.consoleAPICalled'' then console_api_called env msg s
               else if method = JStr ''Runtime.exceptionThrown'' then exception_thrown msg s
               else if method = JStr ''Log.entryAdded'' then log_entry_added msg s
               else (Inr (), s)))"

section \<open>The read loop\<close>

text \<open>
  \<^verbatim>\<open>run\<close>, lines 211-225, over the text frames the channel delivers, in order, and the
  way the channel ends (an abnormal end raises \<^verbatim>\<open>ConnectionClosed\<close> out of the
  iteration). \<open>json_loads\<close> is \<^verbatim>\<open>json.loads\<close>.

  The loop awaits \<^verbatim>\<open>handle_message\<close> before it asks the channel for the next frame,
  and nothing else in the program reads the channel or calls \<^verbatim>\<open>handle_message\<close>. So
  while a handler is suspended in \<^verbatim>\<open>send_command\<close> no frame is handled: the handler
  runs in the environment \<open>no_reply\<close>, and the frames that arrive in the meantime are
  the next elements of the list.
\<close>

datatype stream_end = EndOfStream | ConnectionLost

fun run :: "(string \<Rightarrow> py_exn + json) \<Rightarrow> stream_end \<Rightarrow> string list \<Rightarrow> state \<Rightarrow> state" where
  "run json_loads fin [] s =
     (case fin of
        EndOfStream \<Rightarrow> s
      | ConnectionLost \<Rightarrow> print_line ''[cdp-console] Connection closed'' s)"
| "run json_loads fin (message # rest) s =
     (if \<not> running s then s
      else
        (case (case json_loads message of
                 Inl e \<Rightarrow> (Inl e, s)
               | Inr msg \<Rightarrow> handle_message no_reply msg s) of
           (Inr u, s') \<Rightarrow> run json_loads fin rest s'
         | (Inl (JSONDecodeError m), s') \<Rightarrow> run json_loads fin rest s'
         | (Inl e, s') \<Rightarrow>
             run json_loads fin rest (print_line (''[parse-error] '' @ exn_str e) s')))"

section \<open>Frames used in the statements\<close>

text \<open>
  A \<^verbatim>\<open>Runtime.consoleAPICalled\<close> event as the protocol sends it: the console type and
  the argument descriptors under \<^verbatim>\<open>params\<close>, and no \<^verbatim>\<open>id\<close>.
\<close>

definition console_event :: "json \<Rightarrow> json list \<Rightarrow> json" where
  "console_event log_type args =
     JObj [(KStr ''method'', JStr ''Runtime.consoleAPICalled''),
           (KStr ''params'', JObj [(KStr ''type'', log_type), (KStr ''args'', JArr args)])]"

text \<open>
  Three frames and what \<^verbatim>\<open>json.loads\<close> makes of them: \<open>A\<close> is
  \<^verbatim>\<open>console.log(obj)\<close> with an object handle and no preview, \<open>B\<close> the reply of the
  target to request 4, \<open>C\<close> a log entry. Any other text is not JSON.
\<close>

definition handle_frame :: json where
  "handle_frame =
     console_event (JStr ''log'')
       [JObj [(KStr ''type'', JStr ''object''), (KStr ''objectId'', JStr ''obj-1'')]]"

definition reply_frame :: json where
  "reply_frame =
     JObj [(KStr ''id'', JInt 4),
           (KStr ''result'',
            JObj [(KStr ''result'',
                   JArr [JObj [(KStr ''name'', JStr ''a''),
                               (KStr ''value'', JObj [(KStr ''type'', JStr ''number''),
                                                      (KStr ''value'', JInt 1)])]])])]"

definition log_frame :: json where
  "log_frame =
     JObj [(KStr ''method'', JStr ''Log.entryAdded''),
           (KStr ''params'',
            JObj [(KStr ''entry'', JObj [(KStr ''level'', JStr ''info''),
                                         (KStr ''text'', JStr ''hello'')])])]"

definition frames_loads :: "string \<Rightarrow> py_exn + json" where
  "frames_loads message =
     (if message = ''A'' then Inr handle_frame
      else if message = ''B'' then Inr reply_frame
      else if message = ''C'' then Inr log_frame
      else Inl (JSONDecodeError ''Expecting value''))"

text \<open>A connected session: \<^verbatim>\<open>CDPConsole(url)\<close> after \<^verbatim>\<open>connect()\<close> has returned.\<close>

definition connected :: "string \<Rightarrow> state" where
  "connected url = snd (connect None (init url))"

text \<open>
  A reply to request 4 in the shape \<^verbatim>\<open>get_object_properties\<close> reads, a list of
  property descriptors under \<^verbatim>\<open>result\<close>: one property, itself an object with a handle.
  It is handled half a second after the request was sent. \<open>scalar_reply\<close> carries a number
  where the list is expected.
\<close>

definition nested_reply :: json where
  "nested_reply =
     JObj [(KStr ''id'', JInt 4),
           (KStr ''result'',
            JArr [JObj [(KStr ''name'', JStr ''inner''),
                        (KStr ''value'', JObj [(KStr ''type'', JStr ''object''),
                                               (KStr ''objectId'', JStr ''obj-2''),
                                               (KStr ''description'', JStr ''Object'')])]])]"

definition nested_env :: env where
  "nested_env i = (if i = 4 then Some (1 / 2, nested_reply) else None)"

definition scalar_reply :: json where
  "scalar_reply = JObj [(KStr ''id'', JInt 4), (KStr ''result'', JInt 5)]"

definition scalar_env :: env where
  "scalar_env i = (if i = 4 then Some (1 / 2, scalar_reply) else None)"

text \<open>
  The reply of the target to a request it cannot serve: an \<^verbatim>\<open>error\<close> member and no
  \<^verbatim>\<open>result\<close>.
\<close>

definition error_reply :: json where
  "error_reply =
     JObj [(KStr ''id'', JInt 4),
           (KStr ''error'', JObj [(KStr ''code'', JInt (- 32000)),
                                  (KStr ''message'', JStr ''Could not find object with given id'')])]"

definition error_env :: env where
  "error_env i = (if i = 4 then Some (1 / 2, error_reply) else None)"


section \<open>Request ids on the channel\<close>

text \<open>
  The \<^verbatim>\<open>id\<close> member of a frame written to the channel, the ids of all frames written
  so far in the order of writing, and the property that every frame written carries an
  integer id, that these ids grow strictly, and that none is above \<^verbatim>\<open>msg_id\<close>.
\<close>

definition frame_id :: "json \<Rightarrow> int option" where
  "frame_id frame =
     (case frame of
        JObj kvs \<Rightarrow> (case dict_lookup kvs (KStr ''id'') of Some (JInt i) \<Rightarrow> Some i | _ \<Rightarrow> None)
      | _ \<Rightarrow> None)"

definition sent_ids :: "state \<Rightarrow> int list" where
  "sent_ids s = List.map_filter frame_id (sent s)"

definition ids_increasing :: "state \<Rightarrow> bool" where
  "ids_increasing s \<longleftrightarrow>
     list_all (\<lambda>frame. frame_id frame \<noteq> None) (sent s)
     \<and> sorted_wrt (<) (sent_ids s)
     \<and> list_all (\<lambda>i. i \<le> msg_id s) (sent_ids s)"

section \<open>Well-formed argument descriptors\<close>

text \<open>
  What the protocol sends as a console argument (a \<^verbatim>\<open>RemoteObject\<close>): a JSON object;
  its \<^verbatim>\<open>preview\<close>, if it has one, is a JSON object whose \<^verbatim>\<open>properties\<close>, if present,
  is a list of JSON objects whose \<^verbatim>\<open>name\<close>, if present, is a string.
\<close>

fun is_str :: "json \<Rightarrow> bool" where
  "is_str (JStr s) = True"
| "is_str v = False"

fun wf_preview_prop :: "json \<Rightarrow> bool" where
  "wf_preview_prop (JObj kvs) =
     (case dict_lookup kvs (KStr ''name'') of None \<Rightarrow> True | Some n \<Rightarrow> is_str n)"
| "wf_preview_prop v = False"

fun wf_preview :: "json \<Rightarrow> bool" where
  "wf_preview (JObj kvs) =
     (case dict_lookup kvs (KStr ''properties'') of
        None \<Rightarrow> True
      | Some (JArr ps) \<Rightarrow> list_all wf_preview_prop ps
      | Some v \<Rightarrow> False)"
| "wf_preview v = False"

fun wf_descriptor :: "json \<Rightarrow> bool" where
  "wf_descriptor (JObj kvs) =
     (case dict_lookup kvs (KStr ''preview'') of None \<Rightarrow> True | Some pv \<Rightarrow> wf_preview pv)"
| "wf_descriptor v = False"

section \<open>Kinds of errors and results\<close>

text \<open>
  \<^verbatim>\<open>json.JSONDecodeError\<close> is the one exception that \<^verbatim>\<open>run\<close> swallows. \<open>no_decode\<close>
  says of a result that it is not this exception; \<open>fa_ok\<close> says the same of a result
  of \<^verbatim>\<open>format_arg\<close>, and that what it flags as complex is a string.
\<close>

fun decode_error :: "py_exn \<Rightarrow> bool" where
  "decode_error (JSONDecodeError m) = True"
| "decode_error e = False"

definition no_decode :: "py_exn + 'a \<Rightarrow> bool" where
  "no_decode r = (case r of Inl e \<Rightarrow> \<not> decode_error e | Inr x \<Rightarrow> True)"

definition fa_ok :: "py_exn + json \<times> bool \<Rightarrow> bool" where
  "fa_ok r = (case r of Inl e \<Rightarrow> \<not> decode_error e | Inr (t, c) \<Rightarrow> c \<longrightarrow> is_str t)"

section \<open>Console calls, exceptions\<close>

lemmas py_defs =
  py_in_def py_get_def py_getitem_def py_iter_def bindE_def key_eq_def key_norm_def
  py_str_def py_join_def py_split_nl_def print_line_def

lemma reply_future_event: "reply_future (console_event t args) s = Inr None"
  by (simp add: reply_future_def console_event_def py_defs)

lemma py_get_dict:
  "py_get (JObj kvs) k dflt
   = Inr (case dict_lookup kvs (KStr k) of Some v \<Rightarrow> v | None \<Rightarrow> dflt)"
  by (simp add: py_get_def split: option.split)

text \<open>
  C7. A console call of type \<^verbatim>\<open>log\<close> whose two arguments carry the inline scalars
  \<^verbatim>\<open>5\<close> and \<^verbatim>\<open>"x"\<close> prints exactly one line, \<^verbatim>\<open>[console.log] 5 x\<close>: the simple
  results joined by single spaces after the prefix. Whatever else the two descriptors
  carry, and whatever the session state is.
\<close>

theorem console_two_scalars_one_line:
  assumes "dict_lookup a1 (KStr ''value'') = Some (JInt 5)"
    and "dict_lookup a2 (KStr ''value'') = Some (JStr ''x'')"
  shows "handle_message env (console_event (JStr ''log'') [JObj a1, JObj a2]) s
         = (Inr (), print_line ''[console.log] 5 x'' s)"
  using assms
  by (simp add: handle_message_def reply_future_event)
     (simp add: console_event_def console_api_called_def format_arg_def py_defs show_int_def
        show_nat.simps)

theorem console_two_scalars_one_line_witness:
  "dict_lookup [(KStr ''type'', JStr ''number''), (KStr ''value'', JInt 5)] (KStr ''value'')
     = Some (JInt 5)
   \<and> dict_lookup [(KStr ''type'', JStr ''string''), (KStr ''value'', JStr ''x'')] (KStr ''value'')
     = Some (JStr ''x'')
   \<and> out (snd (handle_message no_reply
        (console_event (JStr ''log'')
           [JObj [(KStr ''type'', JStr ''number''), (KStr ''value'', JInt 5)],
            JObj [(KStr ''type'', JStr ''string''), (KStr ''value'', JStr ''x'')]])
        (init ''ws://localhost:9222'')))
     = [''[console.log] 5 x'']"
  using console_two_scalars_one_line
          [of "[(KStr ''type'', JStr ''number''), (KStr ''value'', JInt 5)]"
              "[(KStr ''type'', JStr ''string''), (KStr ''value'', JStr ''x'')]"
              no_reply "init ''ws://localhost:9222''"]
  by (simp add: key_eq_def key_norm_def print_line_def init_def)

lemma console_inline_composite:
  assumes "dict_lookup a (KStr ''value'') = Some (JObj [(KStr ''a'', JInt 1)])"
  shows \<open>handle_message env (console_event (JStr ''log'') [JObj a]) s
         = (Inr (), print_line ''    {\<newline>      "a": 1\<newline>    }''
                      (print_line ''[console.log] '' s))\<close>
  using assms
  by (simp add: handle_message_def reply_future_event)
     (simp add: console_event_def console_api_called_def format_arg_def py_defs show_int_def
        show_nat.simps json_dumps_indent2_def newline_indent_def json_quote_def
        json_escape_char_def)

text \<open>
  C6, as the code has it. A console call whose single argument carries the inline
  composite \<^verbatim>\<open>{"a": 1}\<close> prints two things: the header \<^verbatim>\<open>[console.log]\<close> followed by
  one space (the separator of the f-string, before an empty main line), then the
  pretty-printed value as one block, whose lines are \<^verbatim>\<open>{\<close>, \<^verbatim>\<open>"a": 1\<close> at two more
  spaces and \<^verbatim>\<open>}\<close>, each behind four spaces.
\<close>

theorem console_composite_indented_block:
  assumes "dict_lookup a (KStr ''value'') = Some (JObj [(KStr ''a'', JInt 1)])"
  shows \<open>handle_message env (console_event (JStr ''log'') [JObj a]) s
           = (Inr (), print_line ''    {\<newline>      "a": 1\<newline>    }''
                        (print_line ''[console.log] '' s))
         \<and> split_nl ''    {\<newline>      "a": 1\<newline>    }''
           = [''    {'', ''      "a": 1'', ''    }'']\<close>
  using console_inline_composite [OF assms] by simp

theorem console_composite_indented_block_witness:
  \<open>dict_lookup [(KStr ''type'', JStr ''object''), (KStr ''value'', JObj [(KStr ''a'', JInt 1)])]
     (KStr ''value'') = Some (JObj [(KStr ''a'', JInt 1)])
   \<and> out (snd (handle_message no_reply
        (console_event (JStr ''log'')
           [JObj [(KStr ''type'', JStr ''object''),
                  (KStr ''value'', JObj [(KStr ''a'', JInt 1)])]])
        (init ''ws://localhost:9222'')))
     = [''[console.log] '', ''    {\<newline>      "a": 1\<newline>    }'']\<close>
  using console_composite_indented_block
          [of "[(KStr ''type'', JStr ''object''), (KStr ''value'', JObj [(KStr ''a'', JInt 1)])]"
              no_reply "init ''ws://localhost:9222''"]
  by (simp add: key_eq_def key_norm_def print_line_def init_def)

text \<open>
  C6, as the claim states it, fails: the header line that the call prints is not
  \<^verbatim>\<open>[console.log]\<close>, it ends in a space.
\<close>

theorem console_composite_header_counterexample:
  \<open>out (snd (handle_message no_reply
      (console_event (JStr ''log'')
         [JObj [(KStr ''type'', JStr ''object''),
                (KStr ''value'', JObj [(KStr ''a'', JInt 1)])]])
      (init ''ws://localhost:9222''))) ! 0 \<noteq> ''[console.log]''\<close>
  using console_inline_composite
          [of "[(KStr ''type'', JStr ''object''), (KStr ''value'', JObj [(KStr ''a'', JInt 1)])]"
              no_reply "init ''ws://localhost:9222''"]
  by (simp add: key_eq_def key_norm_def print_line_def init_def)

text \<open>
  C8. An exception event (a frame that answers no pending request, with the method
  \<^verbatim>\<open>Runtime.exceptionThrown\<close>, whose \<^verbatim>\<open>params\<close>, \<^verbatim>\<open>exceptionDetails\<close> and
  \<^verbatim>\<open>exception\<close> are objects where they are present) prints the single line
  \<^verbatim>\<open>[console.error] EXCEPTION: <message>\<close>, where the message is the exception's
  description if it has one, else the text of the details if they have one, else
  \<^verbatim>\<open>Unknown error\<close>.
\<close>

theorem exception_message_preference:
  assumes "reply_future (JObj m) s = Inr None"
    and "dict_lookup m (KStr ''method'') = Some (JStr ''Runtime.exceptionThrown'')"
    and "py_get (JObj m) ''params'' (JObj []) = Inr (JObj ps)"
    and "py_get (JObj ps) ''exceptionDetails'' (JObj []) = Inr (JObj ds)"
    and "py_get (JObj ds) ''exception'' (JObj []) = Inr (JObj xs)"
  shows "handle_message env (JObj m) s =
           (Inr (), print_line (''[console.error] EXCEPTION: '' @ py_str
              (case dict_lookup xs (KStr ''description'') of
                 Some d \<Rightarrow> d
               | None \<Rightarrow> (case dict_lookup ds (KStr ''text'') of
                            Some t \<Rightarrow> t
                          | None \<Rightarrow> JStr ''Unknown error''))) s)"
proof -
  have me: "py_get (JObj m) ''method'' (JStr []) = Inr (JStr ''Runtime.exceptionThrown'')"
    using assms(2) by (simp add: py_get_def)
  show ?thesis
    by (simp add: handle_message_def assms(1) me exception_thrown_def assms(3,4,5) bindE_def)
       (simp add: py_get_dict)
qed

theorem exception_message_preference_witness:
  "out (snd (handle_message no_reply
       (JObj [(KStr ''method'', JStr ''Runtime.exceptionThrown''),
              (KStr ''params'', JObj [(KStr ''exceptionDetails'', JObj [])])])
       (init ''ws://localhost:9222'')))
   = [''[console.error] EXCEPTION: Unknown error'']"
  using exception_message_preference
          [of "[(KStr ''method'', JStr ''Runtime.exceptionThrown''),
                (KStr ''params'', JObj [(KStr ''exceptionDetails'', JObj [])])]"
              "init ''ws://localhost:9222''" "[(KStr ''exceptionDetails'', JObj [])]" "[]" "[]"
              no_reply]
  by (simp add: reply_future_def py_defs init_def)

text \<open>
  C10. An argument of type \<^verbatim>\<open>object\<close> with a handle, no inline value and no preview,
  whose property fetch comes back as a string (a sentinel such as
  \<^verbatim>\<open>[Object: timeout]\<close>) instead of a dict: \<^verbatim>\<open>format_arg\<close> returns the string with
  \<^verbatim>\<open>is_complex = False\<close>, and a console call with this one argument prints it on the
  header line, with no block under it.
\<close>

theorem sentinel_is_simple:
  assumes "dict_lookup a (KStr ''value'') = None"
    and "dict_lookup a (KStr ''type'') = Some (JStr ''object'')"
    and "dict_lookup a (KStr ''preview'') = None"
    and "dict_lookup a (KStr ''objectId'') = Some object_id"
    and "get_object_properties env object_id 2 s = (Inr (JStr sentinel), s')"
  shows "format_arg env (JObj a) s = (Inr (JStr sentinel, False), s')
         \<and> handle_message env (console_event log_type [JObj a]) s
           = (Inr (), print_line (''[console.'' @ py_str log_type @ ''] '' @ sentinel) s')"
proof -
  have fa: "format_arg env (JObj a) s = (Inr (JStr sentinel, False), s')"
    using assms by (simp add: format_arg_def py_defs)
  have "handle_message env (console_event log_type [JObj a]) s
         = (Inr (), print_line (''[console.'' @ py_str log_type @ ''] '' @ sentinel) s')"
    by (simp add: handle_message_def reply_future_event)
       (simp add: console_event_def console_api_called_def fa py_get_def py_iter_def bindE_def
          key_eq_def key_norm_def py_join_def)
  with fa show ?thesis by simp
qed

lemma fetch_without_reply:
  "get_object_properties no_reply (JStr ''obj-1'') 2 (snd (connect None (init ''ws://localhost:9222'')))
   = (Inr (JStr ''[Object: timeout]''),
      snd (get_object_properties no_reply (JStr ''obj-1'') 2
             (snd (connect None (init ''ws://localhost:9222'')))))"
  by (simp add: prod_eq_iff get_object_properties.simps gop_try.simps wait_for_def
      send_command_def send_command_start_def await_reply_def ws_send_def init_def connect_def
      Let_def gop_except_def no_reply_def)

lemma fetch_without_reply_out:
  "out (snd (get_object_properties no_reply (JStr ''obj-1'') 2
               (snd (connect None (init ''ws://localhost:9222''))))) = []"
  by (simp add: get_object_properties.simps gop_try.simps wait_for_def
      send_command_def send_command_start_def await_reply_def ws_send_def init_def connect_def
      Let_def gop_except_def no_reply_def)

theorem sentinel_is_simple_witness:
  "fst (format_arg no_reply
          (JObj [(KStr ''type'', JStr ''object''), (KStr ''objectId'', JStr ''obj-1'')])
          (snd (connect None (init ''ws://localhost:9222''))))
     = Inr (JStr ''[Object: timeout]'', False)
   \<and> out (snd (handle_message no_reply handle_frame
                 (snd (connect None (init ''ws://localhost:9222'')))))
     = [''[console.log] [Object: timeout]'']"
  using sentinel_is_simple
          [of "[(KStr ''type'', JStr ''object''), (KStr ''objectId'', JStr ''obj-1'')]"
              "JStr ''obj-1''" no_reply "snd (connect None (init ''ws://localhost:9222''))"
              "''[Object: timeout]''" _ "JStr ''log''", OF _ _ _ _ fetch_without_reply]
  by (simp add: key_eq_def key_norm_def handle_frame_def print_line_def fetch_without_reply_out
      py_str_def)

section \<open>The read loop does not read while a handler waits\<close>

text \<open>
  C2. The frames \<open>A\<close>, \<open>B\<close>, \<open>C\<close> arrive in this order on a connected session. The
  handler of \<open>A\<close> sends request 4 and waits for its reply. \<open>B\<close> is that reply, but the
  loop is inside the handler and hands it to nobody: the fetch runs into its limit and
  the console line shows the sentinel. Only then is \<open>B\<close> handled; request 4 is still in
  \<^verbatim>\<open>pending\<close> with a cancelled future, so \<^verbatim>\<open>set_result\<close> raises and the loop prints a
  diagnostic line. \<open>C\<close> is printed after that.
\<close>

theorem sequential_loop_starves_nested_fetch:
  "out (run frames_loads EndOfStream [''A'', ''B'', ''C'']
          (snd (connect None (init ''ws://localhost:9222''))))
   = [''[console.log] [Object: timeout]'', ''[parse-error] invalid state'', ''[info] hello'']"
  by (simp add: connect_def init_def ws_send_def frames_loads_def handle_frame_def
      reply_frame_def log_frame_def handle_message_def reply_future_def
      console_event_def console_api_called_def format_arg_def py_defs
      get_object_properties.simps gop_try.simps wait_for_def send_command_def
      send_command_start_def await_reply_def no_reply_def Let_def get_properties_params_def
      command_def gop_except_def set_result_def pending_key_def log_entry_added_def)

section \<open>What a property fetch changes\<close>

text \<open>
  Sending a request leaves the printed lines, the channel and the \<^verbatim>\<open>running\<close> flag as
  they are, and moves \<^verbatim>\<open>msg_id\<close> by one.
\<close>

lemma send_command_start_eff:
  "send_command_start m p s = (r, s') \<Longrightarrow>
     out s' = out s \<and> msg_id s' = msg_id s + 1 \<and> ws s' = ws s \<and> running s' = running s"
  by (auto simp: send_command_start_def Let_def ws_send_def split: ws_state.splits)

lemma await_reply_eff:
  "await_reply env i fut t dl s = (r, s') \<Longrightarrow>
     out s' = out s \<and> msg_id s' = msg_id s \<and> ws s' = ws s \<and> sent s' = sent s
     \<and> running s' = running s"
  by (auto simp: await_reply_def Let_def split: option.splits if_splits)

lemma send_command_eff:
  "send_command env m p t dl s = (r, s') \<Longrightarrow>
     out s' = out s \<and> msg_id s' = msg_id s + 1 \<and> ws s' = ws s \<and> running s' = running s"
  by (auto simp: send_command_def split: prod.splits sum.splits
           dest!: send_command_start_eff await_reply_eff)

text \<open>
  One run of the loop body either leaves the state as it is, or it is the recursive call
  of line 82, which needs \<open>max_depth > 0\<close>.
\<close>

lemma gop_step_cases:
  "(\<exists>r. gop_step env d p obj s = (r, s))
   \<or> (0 < d \<and> (\<exists>name oid. gop_step env d p obj s =
         (case get_object_properties env oid (d - 1) s of
            (r, s') \<Rightarrow> (bindE r (setitem obj name), s'))))"
proof -
  define Q where "Q x \<longleftrightarrow>
     ((\<exists>r. x = (r, s))
      \<or> (0 < d \<and> (\<exists>name oid. x =
            (case get_object_properties env oid (d - 1) s of
               (r, s') \<Rightarrow> (bindE r (setitem obj name), s')))))" for x
  have pure: "Q (r, s)" for r
    by (simp add: Q_def)
  have fetch: "0 < d \<Longrightarrow> Q (case get_object_properties env oid (d - 1) s of
                              (r, s') \<Rightarrow> (bindE r (setitem obj name), s'))" for oid name
    unfolding Q_def by blast
  have "Q (gop_step env d p obj s)"
  proof (cases "py_get p ''name'' (JStr ''?'')")
    case (Inl e)
    then show ?thesis by (simp add: gop_step.simps pure)
  next
    case n: (Inr name)
    show ?thesis
    proof (cases "py_get p ''value'' (JObj [])")
      case (Inl e)
      with n show ?thesis by (simp add: gop_step.simps pure)
    next
      case v: (Inr vd)
      show ?thesis
      proof (cases "py_in ''value'' vd")
        case (Inl e)
        with n v show ?thesis by (simp add: gop_step.simps pure)
      next
        case i: (Inr has_value)
        show ?thesis
        proof (cases has_value)
          case True
          with n v i show ?thesis by (simp add: gop_step.simps pure)
        next
          case False
          show ?thesis
          proof (cases "py_get vd ''type'' JNull")
            case (Inl e)
            with n v i False show ?thesis by (simp add: gop_step.simps pure)
          next
            case t: (Inr ty)
            show ?thesis
            proof (cases "ty = JStr ''object'' \<and> 0 < d")
              case True
              with n v i False t show ?thesis
                by (simp add: gop_step.simps pure fetch split: sum.split bool.split)
            next
              case nf: False
              then have nf': "(ty = JStr ''object'' \<and> 0 < d) = False" by simp
              from n v i False t show ?thesis
                by (simp add: gop_step.simps nf' pure split: sum.split bool.split)
            qed
          qed
        qed
      qed
    qed
  qed
  then show ?thesis
    unfolding Q_def .
qed

text \<open>
  A reflexive and transitive relation between states that every \<^verbatim>\<open>send_command\<close>
  respects holds between the state before and after \<^verbatim>\<open>get_object_properties\<close>.
\<close>

lemma gop_loop_rel:
  assumes refl: "\<And>s. R s s"
    and trans: "\<And>a b c. R a b \<Longrightarrow> R b c \<Longrightarrow> R a c"
    and step: "\<And>p obj s. R s (snd (gop_step env d p obj s))"
  shows "R s (snd (gop_loop env d props obj s))"
proof (induction props arbitrary: obj s)
  case Nil
  show ?case by (simp add: refl)
next
  case (Cons p props)
  show ?case
  proof (cases "gop_step env d p obj s")
    case (Pair r s1)
    have a: "R s s1" using step [of s p obj] Pair by simp
    show ?thesis
    proof (cases r)
      case (Inl e)
      then show ?thesis using Pair a by simp
    next
      case (Inr obj')
      have "R s1 (snd (gop_loop env d props obj' s1))" by (rule Cons)
      with a have "R s (snd (gop_loop env d props obj' s1))" by (rule trans)
      then show ?thesis using Pair Inr by simp
    qed
  qed
qed

lemma gop_try_rel:
  assumes refl: "\<And>s. R s s"
    and trans: "\<And>a b c. R a b \<Longrightarrow> R b c \<Longrightarrow> R a c"
    and send: "\<And>m p t dl s r s'. send_command env m p t dl s = (r, s') \<Longrightarrow> R s s'"
    and step: "\<And>p obj s. R s (snd (gop_step env d p obj s))"
  shows "R s (snd (gop_try env oid d s))"
proof (cases "send_command env ''Runtime.getProperties'' (get_properties_params oid) 5 (Some 2) s")
  case (Pair r s1)
  have a: "R s s1" using send Pair by blast
  have l: "R s (snd (gop_loop env d props [] s1))" for props
  proof -
    have "R s1 (snd (gop_loop env d props [] s1))"
      by (rule gop_loop_rel [where R = R]) (rule refl, erule (1) trans, rule step)
    with a show ?thesis by (rule trans)
  qed
  show ?thesis
    using Pair a l
    by (simp add: gop_try.simps wait_for_def split: outcome.split sum.split bool.split)
qed

lemma gop_rel:
  assumes refl: "\<And>s. R s s"
    and trans: "\<And>a b c. R a b \<Longrightarrow> R b c \<Longrightarrow> R a c"
    and send: "\<And>m p t dl s r s'. send_command env m p t dl s = (r, s') \<Longrightarrow> R s s'"
  shows "R s (snd (get_object_properties env oid d s))"
proof (induction "nat d" arbitrary: d oid s rule: less_induct)
  case less
  have step: "R s (snd (gop_step env d p obj s))" for p obj s
  proof -
    from gop_step_cases [of env d p obj s] show ?thesis
    proof
      assume "\<exists>r. gop_step env d p obj s = (r, s)"
      then show ?thesis by (auto simp: refl)
    next
      assume "0 < d \<and> (\<exists>name oid. gop_step env d p obj s =
         (case get_object_properties env oid (d - 1) s of
            (r, s') \<Rightarrow> (bindE r (setitem obj name), s')))"
      then obtain name oid' where d: "0 < d"
        and e: "gop_step env d p obj s =
         (case get_object_properties env oid' (d - 1) s of
            (r, s') \<Rightarrow> (bindE r (setitem obj name), s'))" by blast
      from d have "nat (d - 1) < nat d" by simp
      from less [OF this, of s oid'] e show ?thesis
        by (cases "get_object_properties env oid' (d - 1) s") simp
    qed
  qed
  have "R s (snd (gop_try env oid d s))"
    by (rule gop_try_rel [where R = R]) (rule refl, erule (1) trans, erule send, rule step)
  then show ?case
    by (cases "gop_try env oid d s") (simp add: get_object_properties.simps)
qed


section \<open>The materializer is total\<close>

lemma gop_except_Inr: "\<exists>v. gop_except r = Inr v"
  by (cases r) (auto simp: gop_except_def split: py_exn.split)

lemma gop_never_raises: "\<exists>v. fst (get_object_properties env oid d s) = Inr v"
  using gop_except_Inr
  by (cases "gop_try env oid d s") (simp add: get_object_properties.simps)

lemma gop_loop_dict:
  "gop_loop env d props obj s = (Inr v, s') \<Longrightarrow> is_dict v"
proof (induction props arbitrary: obj s)
  case Nil
  then show ?case by auto
next
  case (Cons p props)
  then show ?case by (auto split: prod.splits sum.splits)
qed

lemma gop_try_printable:
  "gop_try env oid d s = (Inr v, s') \<Longrightarrow> is_dict v \<or> is_str v"
  by (auto simp: gop_try.simps split: prod.splits sum.splits bool.splits dest: gop_loop_dict)

lemma gop_printable:
  "fst (get_object_properties env oid d s) = Inr v \<Longrightarrow> is_dict v \<or> is_str v"
  by (cases "gop_try env oid d s")
     (auto simp: get_object_properties.simps gop_except_def
           split: sum.splits py_exn.splits dest: gop_try_printable)

lemma gop_loop_depth0:
  assumes "d \<le> 0"
  shows "snd (gop_loop env d props obj s) = s"
proof (induction props arbitrary: obj)
  case Nil
  show ?case by simp
next
  case (Cons p props)
  from gop_step_cases [of env d p obj s] assms
  obtain r where "gop_step env d p obj s = (r, s)" by auto
  then show ?case using Cons by (cases r) simp_all
qed

lemma gop_depth0:
  assumes "d \<le> 0"
  shows "msg_id (snd (get_object_properties env oid d s)) = msg_id s + 1"
proof (cases "send_command env ''Runtime.getProperties'' (get_properties_params oid) 5 (Some 2) s")
  case (Pair r s1)
  then have m: "msg_id s1 = msg_id s + 1" by (auto dest: send_command_eff)
  have "snd (gop_try env oid d s) = s1"
    using Pair gop_loop_depth0 [OF assms]
    by (simp add: gop_try.simps wait_for_def split: outcome.split sum.split bool.split)
  with m show ?thesis
    by (cases "gop_try env oid d s") (simp add: get_object_properties.simps)
qed

lemma connected_eq:
  "connected url =
     \<lparr>ws_url = url, ws = WsOpen, msg_id = 3, pending = Map.empty, running = True,
      futures = [],
      sent = [JObj (command 1 ''Runtime.enable''), JObj (command 2 ''Console.enable''),
              JObj (command 3 ''Log.enable'')],
      out = []\<rparr>"
  by (simp add: connected_def connect_def init_def ws_send_def)

lemma preview_props_total:
  "list_all wf_preview_prop ps \<Longrightarrow> \<exists>obj'. preview_props ps obj = Inr obj'"
proof (induction ps arbitrary: obj)
  case Nil
  show ?case by simp
next
  case (Cons p ps)
  from Cons.prems obtain kvs where p: "p = JObj kvs" by (cases p) auto
  from Cons.prems p have n: "case dict_lookup kvs (KStr ''name'') of None \<Rightarrow> True | Some n \<Rightarrow> is_str n"
    by simp
  have "\<exists>obj1. bindE (py_get p ''name'' (JStr ''?'')) (\<lambda>name.
             bindE (py_get p ''description'' (JStr ''...'')) (\<lambda>d.
               bindE (py_get p ''value'' d) (\<lambda>v. setitem obj name v))) = Inr obj1"
  proof (cases "dict_lookup kvs (KStr ''name'')")
    case None
    then show ?thesis by (simp add: p py_get_def bindE_def setitem_def)
  next
    case (Some nm)
    with n obtain str where "nm = JStr str" by (cases nm) auto
    with Some show ?thesis by (simp add: p py_get_def bindE_def setitem_def)
  qed
  then obtain obj1 where "bindE (py_get p ''name'' (JStr ''?'')) (\<lambda>name.
             bindE (py_get p ''description'' (JStr ''...'')) (\<lambda>d.
               bindE (py_get p ''value'' d) (\<lambda>v. setitem obj name v))) = Inr obj1" ..
  moreover from Cons.prems have "list_all wf_preview_prop ps" by simp
  from Cons.IH [OF this, of obj1] obtain obj' where "preview_props ps obj1 = Inr obj'" ..
  ultimately show ?case by simp
qed

lemma preview_to_dict_total:
  assumes "wf_preview pv"
  shows "\<exists>obj. preview_to_dict pv = Inr (JObj obj)"
proof -
  from assms obtain kvs where pv: "pv = JObj kvs" by (cases pv) auto
  show ?thesis
  proof (cases "dict_lookup kvs (KStr ''properties'')")
    case None
    then show ?thesis by (simp add: pv preview_to_dict_def py_get_def py_iter_def bindE_def)
  next
    case (Some x)
    with assms pv obtain ps where x: "x = JArr ps" and ps: "list_all wf_preview_prop ps"
      by (cases x) auto
    from preview_props_total [OF ps, of "[]"] obtain obj where "preview_props ps [] = Inr obj" ..
    with Some x show ?thesis
      by (simp add: pv preview_to_dict_def py_get_def py_iter_def bindE_def)
  qed
qed

lemma format_object_total: "\<exists>t. format_object (JObj kvs) obj = Inr (JStr t, True)"
  by (simp add: format_object_def py_get_def bindE_def Let_def)

lemma format_arg_total:
  assumes "wf_descriptor arg"
  shows "\<exists>t c s'. format_arg env arg s = (Inr (t, c), s')"
proof -
  from assms obtain kvs where arg: "arg = JObj kvs" by (cases arg) auto
  define Q where "Q x \<longleftrightarrow> (\<exists>t c s'. x = (Inr (t, c), s'))"
    for x :: "(py_exn + json \<times> bool) \<times> state"
  have ok: "Q (Inr (t, c), s')" for t c s' by (simp add: Q_def)
  have fo: "Q (format_object (JObj kvs) obj, s')" for obj s'
    using format_object_total [of kvs obj] by (auto simp: Q_def)
  have "Q (format_arg env (JObj kvs) s)"
  proof (cases "dict_lookup kvs (KStr ''value'')")
    case (Some v)
    then show ?thesis by (simp add: format_arg_def py_get_def py_in_def py_getitem_def bindE_def ok)
  next
    case nv: None
    show ?thesis
    proof (cases "dict_lookup kvs (KStr ''type'') = Some (JStr ''object'')")
      case False
      then have f: "((case dict_lookup kvs (KStr ''type'') of None \<Rightarrow> JStr [] | Some v \<Rightarrow> v)
                      = JStr ''object'') = False"
        by (auto split: option.splits)
      show ?thesis
        by (cases "dict_lookup kvs (KStr ''description'')")
           (simp_all add: format_arg_def py_get_def py_in_def py_getitem_def bindE_def nv f ok)
    next
      case ty: True
      show ?thesis
      proof (cases "dict_lookup kvs (KStr ''preview'')")
        case (Some pv)
        with assms arg have "wf_preview pv" by simp
        from preview_to_dict_total [OF this] obtain obj where "preview_to_dict pv = Inr (JObj obj)" ..
        with Some show ?thesis
          by (simp add: format_arg_def py_get_def py_in_def py_getitem_def bindE_def nv ty fo)
      next
        case np: None
        show ?thesis
        proof (cases "dict_lookup kvs (KStr ''objectId'')")
          case None
          then show ?thesis
            by (simp add: format_arg_def py_get_def py_in_def py_getitem_def bindE_def nv ty np ok)
        next
          case (Some oid)
          obtain v s' where g: "get_object_properties env oid 2 s = (Inr v, s')"
            using gop_never_raises [of env oid 2 s]
            by (cases "get_object_properties env oid 2 s") auto
          show ?thesis
            by (cases "is_dict v")
               (simp_all add: format_arg_def py_get_def py_in_def py_getitem_def bindE_def
                  nv ty np Some g ok fo)
        qed
      qed
    qed
  qed
  then show ?thesis by (simp add: Q_def arg)
qed

text \<open>
  C3. \<^verbatim>\<open>get_object_properties\<close> returns for every handle, every depth and every
  state and environment, and what it returns is a dict or a string, never an exception.
  \<^verbatim>\<open>format_arg\<close> returns a pair for every well-formed descriptor. With
  \<open>max_depth \<le> 0\<close> the call allocates exactly one request id, the one of its own
  \<^verbatim>\<open>Runtime.getProperties\<close>: no property of the reply is fetched, whatever handles
  the reply carries.
\<close>

theorem materialization_total:
  "(\<exists>v s'. get_object_properties env object_id max_depth s = (Inr v, s')
            \<and> (is_dict v \<or> is_str v))
   \<and> (wf_descriptor arg \<longrightarrow> (\<exists>t c s'. format_arg env arg s = (Inr (t, c), s')))
   \<and> (max_depth \<le> 0 \<longrightarrow>
        msg_id (snd (get_object_properties env object_id max_depth s)) = msg_id s + 1)"
proof -
  obtain v where v: "fst (get_object_properties env object_id max_depth s) = Inr v"
    using gop_never_raises by blast
  from gop_printable [OF v] v
  have "\<exists>v s'. get_object_properties env object_id max_depth s = (Inr v, s')
            \<and> (is_dict v \<or> is_str v)"
    by (cases "get_object_properties env object_id max_depth s") auto
  then show ?thesis
    using format_arg_total [of arg env s] gop_depth0 [of max_depth env object_id s] by blast
qed

theorem materialization_total_witness:
  "get_object_properties nested_env (JStr ''obj-1'') 0 (connected ''ws://localhost:9222'')
     = (Inr (JObj [(KStr ''inner'', JStr ''Object'')]),
        snd (get_object_properties nested_env (JStr ''obj-1'') 0 (connected ''ws://localhost:9222'')))
   \<and> msg_id (snd (get_object_properties nested_env (JStr ''obj-1'') 0
                     (connected ''ws://localhost:9222''))) = 4
   \<and> wf_descriptor (JObj [(KStr ''type'', JStr ''object''), (KStr ''objectId'', JStr ''obj-1'')])
   \<and> (\<exists>t c s'. format_arg nested_env
          (JObj [(KStr ''type'', JStr ''object''), (KStr ''objectId'', JStr ''obj-1'')])
          (connected ''ws://localhost:9222'') = (Inr (t, c), s'))"
  using materialization_total
          [of nested_env "JStr ''obj-1''" 0 "connected ''ws://localhost:9222''"
              "JObj [(KStr ''type'', JStr ''object''), (KStr ''objectId'', JStr ''obj-1'')]"]
  by (simp add: connected_eq prod_eq_iff key_eq_def key_norm_def)
     (simp add: get_object_properties.simps gop_try.simps gop_step.simps wait_for_def
        send_command_def send_command_start_def await_reply_def ws_send_def Let_def
        nested_env_def nested_reply_def gop_except_def py_defs setitem_def
        get_properties_params_def)

section \<open>A failed fetch degrades to a sentinel\<close>

lemma gop_except_sentinel:
  "gop_except (Inl e) =
     Inr (JStr (if e = TimeoutError then ''[Object: timeout]''
                else ''[Object: '' @ exn_str e @ '']''))"
  by (cases e) (simp_all add: gop_except_def)

lemma gop_try_timeout:
  assumes "ws s = WsOpen"
    and "case env (msg_id s + 1) of None \<Rightarrow> True | Some (t, reply) \<Rightarrow> 2 \<le> t"
  shows "fst (gop_try env object_id max_depth s) = Inl TimeoutError"
  using assms
  by (auto simp: gop_try.simps wait_for_def send_command_def send_command_start_def
        await_reply_def ws_send_def Let_def split: option.splits)

lemma gop_try_closed:
  assumes "ws s = WsClosed reason"
  shows "fst (gop_try env object_id max_depth s) = Inl (ConnectionClosed reason)"
  using assms
  by (simp add: gop_try.simps wait_for_def send_command_def send_command_start_def
        ws_send_def Let_def)

lemma gop_try_no_result:
  assumes "ws s = WsOpen"
    and "env (msg_id s + 1) = Some (t, JObj reply)"
    and "t < 2"
    and "dict_lookup reply (KStr ''result'') = None"
  shows "fst (gop_try env object_id max_depth s) = Inr (JStr ''[Object]'')"
  using assms
  by (simp add: gop_try.simps wait_for_def send_command_def send_command_start_def
        await_reply_def ws_send_def Let_def py_in_def)

text \<open>
  C4, as the claim states it, fails: a fetch that the target answers with its error reply
  does not give \<^verbatim>\<open>[Object: <error text>]\<close>. The reply has no \<^verbatim>\<open>result\<close> member, and
  line 68 returns the bare \<^verbatim>\<open>[Object]\<close>.
\<close>

theorem error_reply_bare_sentinel:
  "fst (get_object_properties error_env (JStr ''obj-1'') 2 (connected ''ws://localhost:9222''))
     = Inr (JStr ''[Object]'')
   \<and> (\<forall>text. ''[Object]'' \<noteq> ''[Object: '' @ text @ '']'')"
  by (simp add: connected_eq get_object_properties.simps gop_try.simps wait_for_def
        send_command_def send_command_start_def await_reply_def ws_send_def Let_def
        error_env_def error_reply_def gop_except_def py_defs)

text \<open>
  C4, as the code has it. On an open channel, when no reply to the request is handled
  within the 2 seconds of line 64, \<^verbatim>\<open>get_object_properties\<close> returns
  \<^verbatim>\<open>[Object: timeout]\<close>. Whenever the body of its \<^verbatim>\<open>try\<close> raises \<open>e\<close>, it returns
  \<^verbatim>\<open>[Object: timeout]\<close> if \<open>e\<close> is the timeout and \<^verbatim>\<open>[Object: <str(e)>]\<close> otherwise,
  in the state the body left; on a closed channel that is the text of the
  \<^verbatim>\<open>ConnectionClosed\<close> error. A reply that comes in time and is an object without a
  \<^verbatim>\<open>result\<close> member, as the error reply of the target is, gives the bare
  \<^verbatim>\<open>[Object]\<close>. In every case the caller gets a value.
\<close>

theorem fetch_failure_sentinel:
  "(ws s = WsOpen
      \<and> (case env (msg_id s + 1) of None \<Rightarrow> True | Some (t, reply) \<Rightarrow> 2 \<le> t)
    \<longrightarrow> fst (get_object_properties env object_id max_depth s) = Inr (JStr ''[Object: timeout]''))
   \<and> (gop_try env object_id max_depth s = (Inl e, s') \<longrightarrow>
        get_object_properties env object_id max_depth s
        = (Inr (JStr (if e = TimeoutError then ''[Object: timeout]''
                      else ''[Object: '' @ exn_str e @ '']'')), s'))
   \<and> (ws s = WsClosed reason \<longrightarrow>
        fst (get_object_properties env object_id max_depth s)
        = Inr (JStr (''[Object: '' @ reason @ '']'')))
   \<and> (ws s = WsOpen \<and> env (msg_id s + 1) = Some (t, JObj reply) \<and> t < 2
        \<and> dict_lookup reply (KStr ''result'') = None
      \<longrightarrow> fst (get_object_properties env object_id max_depth s) = Inr (JStr ''[Object]''))
   \<and> (\<exists>v. fst (get_object_properties env object_id max_depth s) = Inr v)"
proof -
  have a: "fst (get_object_properties env object_id max_depth s)
           = gop_except (fst (gop_try env object_id max_depth s))"
    by (cases "gop_try env object_id max_depth s") (simp add: get_object_properties.simps)
  have "ws s = WsOpen
      \<and> (case env (msg_id s + 1) of None \<Rightarrow> True | Some (t, reply) \<Rightarrow> 2 \<le> t)
    \<longrightarrow> fst (get_object_properties env object_id max_depth s) = Inr (JStr ''[Object: timeout]'')"
    using gop_try_timeout [of s env object_id max_depth] by (simp add: a gop_except_sentinel)
  moreover have "gop_try env object_id max_depth s = (Inl e, s') \<longrightarrow>
        get_object_properties env object_id max_depth s
        = (Inr (JStr (if e = TimeoutError then ''[Object: timeout]''
                      else ''[Object: '' @ exn_str e @ '']'')), s')"
    by (simp add: get_object_properties.simps gop_except_sentinel)
  moreover have "ws s = WsClosed reason \<longrightarrow>
        fst (get_object_properties env object_id max_depth s)
        = Inr (JStr (''[Object: '' @ reason @ '']''))"
    using gop_try_closed [of s reason env object_id max_depth] by (simp add: a gop_except_sentinel)
  moreover have "ws s = WsOpen \<and> env (msg_id s + 1) = Some (t, JObj reply) \<and> t < 2
        \<and> dict_lookup reply (KStr ''result'') = None
      \<longrightarrow> fst (get_object_properties env object_id max_depth s) = Inr (JStr ''[Object]'')"
    using gop_try_no_result [of s env t reply object_id max_depth]
    by (simp add: a gop_except_def)
  moreover have "\<exists>v. fst (get_object_properties env object_id max_depth s) = Inr v"
    by (rule gop_never_raises)
  ultimately show ?thesis by blast
qed

lemma gop_try_scalar_reply:
  "gop_try scalar_env (JStr ''obj-1'') 2 (connected ''ws://localhost:9222'')
   = (Inl (TypeError ([CHR 0x27] @ ''int'' @ [CHR 0x27] @ '' object is not iterable'')),
      snd (gop_try scalar_env (JStr ''obj-1'') 2 (connected ''ws://localhost:9222'')))"
  by (simp add: prod_eq_iff connected_eq gop_try.simps wait_for_def send_command_def
        send_command_start_def await_reply_def ws_send_def Let_def scalar_env_def
        scalar_reply_def py_defs)

theorem fetch_failure_sentinel_witness:
  "fst (get_object_properties no_reply (JStr ''obj-1'') 2 (connected ''ws://localhost:9222''))
     = Inr (JStr ''[Object: timeout]'')
   \<and> fst (get_object_properties scalar_env (JStr ''obj-1'') 2 (connected ''ws://localhost:9222''))
     = Inr (JStr (''[Object: '' @ [CHR 0x27] @ ''int'' @ [CHR 0x27] @ '' object is not iterable]''))
   \<and> fst (get_object_properties no_reply (JStr ''obj-1'') 2
            (close (connected ''ws://localhost:9222'')))
     = Inr (JStr ''[Object: sent 1000 (OK); then received 1000 (OK)]'')
   \<and> fst (get_object_properties error_env (JStr ''obj-1'') 0 (connected ''ws://localhost:9222''))
     = Inr (JStr ''[Object]'')"
  using fetch_failure_sentinel
          [where s = "connected ''ws://localhost:9222''" and env = no_reply
             and object_id = "JStr ''obj-1''" and max_depth = 2]
        fetch_failure_sentinel
          [where s = "connected ''ws://localhost:9222''" and env = scalar_env
             and object_id = "JStr ''obj-1''" and max_depth = 2
             and e = "TypeError ([CHR 0x27] @ ''int'' @ [CHR 0x27] @ '' object is not iterable'')"
             and s' = "snd (gop_try scalar_env (JStr ''obj-1'') 2
                              (connected ''ws://localhost:9222''))"]
        fetch_failure_sentinel
          [where s = "close (connected ''ws://localhost:9222'')" and env = no_reply
             and object_id = "JStr ''obj-1''" and max_depth = 2
             and reason = "''sent 1000 (OK); then received 1000 (OK)''"]
        fetch_failure_sentinel
          [where s = "connected ''ws://localhost:9222''" and env = error_env
             and object_id = "JStr ''obj-1''" and max_depth = 0 and t = "1 / 2"
             and reply = "[(KStr ''id'', JInt 4),
                           (KStr ''error'',
                            JObj [(KStr ''code'', JInt (- 32000)),
                                  (KStr ''message'', JStr ''Could not find object with given id'')])]"]
        gop_try_scalar_reply
  by (simp add: connected_eq close_def no_reply_def error_env_def error_reply_def key_eq_def
        key_norm_def)

section \<open>Requests and their resolution\<close>

text \<open>
  What \<^verbatim>\<open>handle_message\<close> does with a frame that answers a pending request whose
  future is still pending, lines 162-165: the state change that \<open>await_reply\<close> has for
  a reply that comes in time.
\<close>

lemma reply_delivery:
  assumes "pending s i = Some fut" and "fut < length (futures s)"
    and "futures s ! fut = FutPending"
  shows "handle_message env (JObj ((KStr ''id'', JInt i) # rest)) s
         = (Inr (), s\<lparr>pending := (pending s)(i := None),
                        futures := (futures s)[fut := FutFinished (JObj ((KStr ''id'', JInt i) # rest))]\<rparr>)"
  using assms
  by (simp add: handle_message_def reply_future_def py_defs pending_key_def set_result_def)

lemma send_command_start_open:
  assumes "ws s = WsOpen"
  shows "send_command_start meth params s
         = (Inr (msg_id s + 1, length (futures s)),
            s\<lparr>msg_id := msg_id s + 1,
              futures := futures s @ [FutPending],
              pending := (pending s)(msg_id s + 1 \<mapsto> length (futures s)),
              sent := sent s @ [JObj (if py_truthy params
                                      then dict_set (command (msg_id s + 1) meth) (KStr ''params'') params
                                      else command (msg_id s + 1) meth)]\<rparr>)"
  using assms by (simp add: send_command_start_def ws_send_def Let_def)

text \<open>
  C1, as the claim states it, fails: \<^verbatim>\<open>close\<close> resolves nothing. A request that is
  pending when the session is closed is still in \<^verbatim>\<open>pending\<close> afterwards, and its future
  is still pending, not cancelled.
\<close>

theorem close_leaves_request_pending:
  "pending (close (snd (send_command_start ''Runtime.getProperties''
                          (get_properties_params (JStr ''obj-1''))
                          (connected ''ws://localhost:9222'')))) 4 = Some 0
   \<and> futures (close (snd (send_command_start ''Runtime.getProperties''
                            (get_properties_params (JStr ''obj-1''))
                            (connected ''ws://localhost:9222'')))) ! 0 = FutPending"
  by (simp add: connected_eq ws_send_def send_command_start_def close_def
        get_properties_params_def Let_def)

lemma send_command_start_not_open:
  assumes "ws s \<noteq> WsOpen"
  shows "send_command_start meth params s
         = (Inl (case ws s of WsClosed reason \<Rightarrow> ConnectionClosed reason
                 | _ \<Rightarrow> no_attribute JNull ''send''),
            s\<lparr>msg_id := msg_id s + 1,
              futures := futures s @ [FutPending],
              pending := (pending s)(msg_id s + 1 \<mapsto> length (futures s))\<rparr>)"
  using assms by (cases "ws s") (simp_all add: send_command_start_def ws_send_def Let_def)

text \<open>
  C1, as the code has it. A request that \<^verbatim>\<open>send_command\<close> writes to an open channel ends
  in exactly one way, and which one is decided by the times. If its reply is handled
  before the request's own limit and before the limit of an enclosing \<^verbatim>\<open>wait_for\<close>, the
  reply is returned, the future holds it and the entry has left \<^verbatim>\<open>pending\<close>. Otherwise
  the future is cancelled: when there is an enclosing limit and it is not later than the
  request's own, the coroutine is cancelled and the entry stays in \<^verbatim>\<open>pending\<close>; else
  the timeout result is returned and the entry has left \<^verbatim>\<open>pending\<close>. After each of them
  the future takes no further result. Closing the session while the request waits
  resolves nothing: the entry and the pending future stay, no frame is handled after the
  close, and the request ends by one of the two limits. On a channel that is not open the
  send raises; the request is registered in \<^verbatim>\<open>pending\<close> by then, and its future stays
  pending.
\<close>

theorem request_resolved_once:
  "(ws s = WsOpen \<longrightarrow>
      (\<forall>t v. env (msg_id s + 1) = Some (t, v)
              \<and> t < (case deadline of None \<Rightarrow> timeout | Some d \<Rightarrow> min d timeout)
         \<longrightarrow> fst (send_command env meth params timeout deadline s) = Returned v
             \<and> futures (snd (send_command env meth params timeout deadline s))
                 ! length (futures s) = FutFinished v
             \<and> pending (snd (send_command env meth params timeout deadline s)) (msg_id s + 1)
                 = None)
    \<and> ((case env (msg_id s + 1) of
           None \<Rightarrow> True
         | Some (t, v) \<Rightarrow> (case deadline of None \<Rightarrow> timeout | Some d \<Rightarrow> min d timeout) \<le> t)
         \<longrightarrow> futures (snd (send_command env meth params timeout deadline s))
                 ! length (futures s) = FutCancelled
             \<and> (if (case deadline of None \<Rightarrow> False | Some d \<Rightarrow> d \<le> timeout)
                  then fst (send_command env meth params timeout deadline s) = Cancelled
                       \<and> pending (snd (send_command env meth params timeout deadline s))
                            (msg_id s + 1) = Some (length (futures s))
                  else fst (send_command env meth params timeout deadline s)
                         = Returned (JObj [(KStr ''error'', JStr ''timeout'')])
                       \<and> pending (snd (send_command env meth params timeout deadline s))
                            (msg_id s + 1) = None))
    \<and> (\<forall>v. set_result (length (futures s)) v
                (snd (send_command env meth params timeout deadline s))
              = (Inl (InvalidStateError ''invalid state''),
                 snd (send_command env meth params timeout deadline s)))
    \<and> pending (close (snd (send_command_start meth params s))) (msg_id s + 1)
        = Some (length (futures s))
    \<and> futures (close (snd (send_command_start meth params s))) ! length (futures s)
        = FutPending
    \<and> fst (await_reply no_reply (msg_id s + 1) (length (futures s)) timeout deadline
              (close (snd (send_command_start meth params s))))
        = (if (case deadline of None \<Rightarrow> False | Some d \<Rightarrow> d \<le> timeout) then Cancelled
           else Returned (JObj [(KStr ''error'', JStr ''timeout'')])))
   \<and> (ws s \<noteq> WsOpen \<longrightarrow>
        fst (send_command env meth params timeout deadline s)
          = Raised (case ws s of WsClosed reason \<Rightarrow> ConnectionClosed reason
                    | _ \<Rightarrow> no_attribute JNull ''send'')
        \<and> pending (snd (send_command env meth params timeout deadline s)) (msg_id s + 1)
            = Some (length (futures s))
        \<and> futures (snd (send_command env meth params timeout deadline s))
            ! length (futures s) = FutPending)"
proof (cases "ws s = WsOpen")
  case True
  note st = send_command_start_open [OF True, of meth params]
  have 1: "\<forall>t v. env (msg_id s + 1) = Some (t, v)
              \<and> t < (case deadline of None \<Rightarrow> timeout | Some d \<Rightarrow> min d timeout)
         \<longrightarrow> fst (send_command env meth params timeout deadline s) = Returned v
             \<and> futures (snd (send_command env meth params timeout deadline s))
                 ! length (futures s) = FutFinished v
             \<and> pending (snd (send_command env meth params timeout deadline s)) (msg_id s + 1)
                 = None"
    by (auto simp: send_command_def st await_reply_def Let_def split: option.splits)
  have 2: "(case env (msg_id s + 1) of
           None \<Rightarrow> True
         | Some (t, v) \<Rightarrow> (case deadline of None \<Rightarrow> timeout | Some d \<Rightarrow> min d timeout) \<le> t)
         \<longrightarrow> futures (snd (send_command env meth params timeout deadline s))
                 ! length (futures s) = FutCancelled
             \<and> (if (case deadline of None \<Rightarrow> False | Some d \<Rightarrow> d \<le> timeout)
                  then fst (send_command env meth params timeout deadline s) = Cancelled
                       \<and> pending (snd (send_command env meth params timeout deadline s))
                            (msg_id s + 1) = Some (length (futures s))
                  else fst (send_command env meth params timeout deadline s)
                         = Returned (JObj [(KStr ''error'', JStr ''timeout'')])
                       \<and> pending (snd (send_command env meth params timeout deadline s))
                            (msg_id s + 1) = None)"
    by (auto simp: send_command_def st await_reply_def Let_def split: option.splits)
  have 3: "\<forall>v. set_result (length (futures s)) v
                (snd (send_command env meth params timeout deadline s))
              = (Inl (InvalidStateError ''invalid state''),
                 snd (send_command env meth params timeout deadline s))"
    by (auto simp: send_command_def st await_reply_def Let_def set_result_def
             split: option.splits)
  have 4: "pending (close (snd (send_command_start meth params s))) (msg_id s + 1)
        = Some (length (futures s))
    \<and> futures (close (snd (send_command_start meth params s))) ! length (futures s)
        = FutPending
    \<and> fst (await_reply no_reply (msg_id s + 1) (length (futures s)) timeout deadline
              (close (snd (send_command_start meth params s))))
        = (if (case deadline of None \<Rightarrow> False | Some d \<Rightarrow> d \<le> timeout) then Cancelled
           else Returned (JObj [(KStr ''error'', JStr ''timeout'')]))"
    using True
    by (auto simp: st await_reply_def Let_def close_def no_reply_def split: option.splits)
  from True 1 2 3 4 show ?thesis by blast
next
  case False
  note st = send_command_start_not_open [OF False, of meth params]
  have "fst (send_command env meth params timeout deadline s)
          = Raised (case ws s of WsClosed reason \<Rightarrow> ConnectionClosed reason
                    | _ \<Rightarrow> no_attribute JNull ''send'')
        \<and> pending (snd (send_command env meth params timeout deadline s)) (msg_id s + 1)
            = Some (length (futures s))
        \<and> futures (snd (send_command env meth params timeout deadline s))
            ! length (futures s) = FutPending"
    by (simp add: send_command_def st)
  with False show ?thesis by blast
qed

theorem request_resolved_once_witness:
  "ws (connected ''ws://localhost:9222'') = WsOpen
   \<and> send_command nested_env ''Runtime.getProperties'' JNull 5 None
        (connected ''ws://localhost:9222'')
     = (Returned nested_reply,
        (connected ''ws://localhost:9222'')
          \<lparr>msg_id := 4, futures := [FutFinished nested_reply], pending := Map.empty,
            sent := sent (connected ''ws://localhost:9222'')
                    @ [JObj (command 4 ''Runtime.getProperties'')]\<rparr>)
   \<and> fst (send_command no_reply ''Runtime.getProperties'' JNull 5 None
            (connected ''ws://localhost:9222''))
     = Returned (JObj [(KStr ''error'', JStr ''timeout'')])
   \<and> fst (send_command no_reply ''Runtime.getProperties'' JNull 5 (Some 2)
            (connected ''ws://localhost:9222''))
     = Cancelled
   \<and> ws (close (connected ''ws://localhost:9222'')) \<noteq> WsOpen
   \<and> fst (send_command no_reply ''Runtime.getProperties'' JNull 5 None
            (close (connected ''ws://localhost:9222'')))
     = Raised (ConnectionClosed ''sent 1000 (OK); then received 1000 (OK)'')
   \<and> futures (snd (send_command no_reply ''Runtime.getProperties'' JNull 5 None
                     (close (connected ''ws://localhost:9222'')))) = [FutPending]"
  using request_resolved_once
          [where s = "connected ''ws://localhost:9222''" and env = nested_env
             and meth = "''Runtime.getProperties''" and params = JNull and timeout = 5
             and deadline = None]
        request_resolved_once
          [where s = "connected ''ws://localhost:9222''" and env = no_reply
             and meth = "''Runtime.getProperties''" and params = JNull and timeout = 5
             and deadline = None]
        request_resolved_once
          [where s = "connected ''ws://localhost:9222''" and env = no_reply
             and meth = "''Runtime.getProperties''" and params = JNull and timeout = 5
             and deadline = "Some 2"]
        request_resolved_once
          [where s = "close (connected ''ws://localhost:9222'')" and env = no_reply
             and meth = "''Runtime.getProperties''" and params = JNull and timeout = 5
             and deadline = None]
  by (simp add: connected_eq send_command_def send_command_start_def ws_send_def
        await_reply_def Let_def nested_env_def no_reply_def close_def)

section \<open>Errors of the dynamically typed operations\<close>

text \<open>None of the operations on values raises \<^verbatim>\<open>JSONDecodeError\<close>.\<close>

lemma no_decode_Inr [simp]: "no_decode (Inr x)"
  by (simp add: no_decode_def)

lemma no_decode_Inl [simp]: "no_decode (Inl e) = (\<not> decode_error e)"
  by (simp add: no_decode_def)

lemma no_decode_bindE:
  "no_decode m \<Longrightarrow> (\<And>x. no_decode (f x)) \<Longrightarrow> no_decode (bindE m f)"
  by (cases m) (simp_all add: bindE_def)

lemma no_decode_py_get [simp]: "no_decode (py_get d k dflt)"
  by (cases d) (simp_all add: py_get_def no_attribute_def)

lemma no_decode_py_in [simp]: "no_decode (py_in k c)"
  by (cases c) (simp_all add: py_in_def)

lemma no_decode_py_getitem [simp]: "no_decode (py_getitem c k)"
  by (cases c) (simp_all add: py_getitem_def split: option.split)

lemma no_decode_py_iter [simp]: "no_decode (py_iter c)"
  by (cases c) (simp_all add: py_iter_def)

lemma no_decode_to_key [simp]: "no_decode (to_key v)"
  by (cases v) simp_all

lemma no_decode_setitem [simp]: "no_decode (setitem obj name v)"
  by (simp add: setitem_def no_decode_bindE)

lemma no_decode_strs_of [simp]: "no_decode (strs_of i vs)"
proof (induction vs arbitrary: i)
  case Nil
  show ?case by simp
next
  case (Cons v vs)
  show ?case by (cases v) (simp_all add: no_decode_bindE Cons)
qed

lemma no_decode_py_join [simp]: "no_decode (py_join sep parts)"
  by (simp add: py_join_def no_decode_bindE)

lemma no_decode_preview_props [simp]: "no_decode (preview_props ps obj)"
proof (induction ps arbitrary: obj)
  case Nil
  show ?case by simp
next
  case (Cons p ps)
  have "no_decode (bindE (py_get p ''name'' (JStr ''?'')) (\<lambda>name.
             bindE (py_get p ''description'' (JStr ''...'')) (\<lambda>d.
               bindE (py_get p ''value'' d) (\<lambda>v. setitem obj name v))))"
    by (intro no_decode_bindE) simp_all
  then show ?case
    by (cases "bindE (py_get p ''name'' (JStr ''?'')) (\<lambda>name.
             bindE (py_get p ''description'' (JStr ''...'')) (\<lambda>d.
               bindE (py_get p ''value'' d) (\<lambda>v. setitem obj name v)))")
       (simp_all add: Cons)
qed

lemma no_decode_preview_to_dict [simp]: "no_decode (preview_to_dict pv)"
  unfolding preview_to_dict_def by (intro no_decode_bindE) simp_all

lemma fa_ok_Inl [simp]: "fa_ok (Inl e) = (\<not> decode_error e)"
  by (simp add: fa_ok_def)

lemma fa_ok_simple [simp]: "fa_ok (Inr (t, False))"
  by (simp add: fa_ok_def)

lemma fa_ok_complex [simp]: "fa_ok (Inr (JStr t, c))"
  by (simp add: fa_ok_def)

lemma fa_ok_bindE:
  "no_decode m \<Longrightarrow> (\<And>x. fa_ok (f x)) \<Longrightarrow> fa_ok (bindE m f)"
  by (cases m) (simp_all add: bindE_def)

lemma fa_ok_format_object [simp]: "fa_ok (format_object arg obj)"
  unfolding format_object_def by (rule fa_ok_bindE) (simp_all add: Let_def)

lemma no_decodeD: "no_decode m \<Longrightarrow> m = Inl e \<Longrightarrow> \<not> decode_error e"
  by simp

section \<open>The shape of the handlers\<close>

text \<open>
  \<^verbatim>\<open>format_arg\<close> leaves the state as it is or as one call of
  \<^verbatim>\<open>get_object_properties\<close> with depth 2 leaves it; it does not raise
  \<^verbatim>\<open>JSONDecodeError\<close>, and a result it flags as complex is a string.
\<close>

lemma format_arg_cases:
  "\<exists>r s'. format_arg env arg s = (r, s') \<and> fa_ok r
           \<and> (s' = s \<or> (\<exists>oid. s' = snd (get_object_properties env oid 2 s)))"
proof -
  define Q where "Q x \<longleftrightarrow>
     (\<exists>r s'. x = (r, s') \<and> fa_ok r
             \<and> (s' = s \<or> (\<exists>oid. s' = snd (get_object_properties env oid 2 s))))"
    for x :: "(py_exn + json \<times> bool) \<times> state"
  have pure: "fa_ok r \<Longrightarrow> Q (r, s)" for r
    by (simp add: Q_def)
  have fetch: "Q (case get_object_properties env oid 2 s of
                    (Inl e, s') \<Rightarrow> (Inl e, s')
                  | (Inr obj, s') \<Rightarrow>
                      (if is_dict obj then format_object arg obj
                       else Inr (JStr (py_str obj), False), s'))" for oid
  proof -
    obtain v s' where g: "get_object_properties env oid 2 s = (Inr v, s')"
      using gop_never_raises [of env oid 2 s]
      by (cases "get_object_properties env oid 2 s") auto
    then have "\<exists>oid'. s' = snd (get_object_properties env oid' 2 s)"
      by (intro exI [of _ oid]) simp
    then show ?thesis
      unfolding Q_def by (simp add: g)
  qed
  have "Q (format_arg env arg s)"
  proof (cases "py_get arg ''type'' (JStr [])")
    case (Inl e)
    then have nd: "\<not> decode_error e"
      by (rule no_decodeD [rotated]) simp
    from Inl nd show ?thesis
      by (simp add: format_arg_def pure)
  next
    case ty: (Inr arg_type)
    show ?thesis
    proof (cases "py_in ''value'' arg")
      case (Inl e)
      then have nd: "\<not> decode_error e"
        by (rule no_decodeD [rotated]) simp
      from ty Inl nd show ?thesis
        by (simp add: format_arg_def pure)
    next
      case hv: (Inr has_value)
      show ?thesis
      proof (cases has_value)
        case True
        have "fa_ok (bindE (py_getitem arg ''value'') (\<lambda>val.
             if is_dict_or_list val then Inr (JStr (json_dumps_indent2 val), True)
             else Inr (JStr (py_str val), False)))"
          by (rule fa_ok_bindE) simp_all
        with ty hv True show ?thesis
          by (simp add: format_arg_def pure)
      next
        case nv: False
        show ?thesis
        proof (cases "arg_type = JStr ''object''")
          case False
          have d: "fa_ok (bindE (py_getitem arg ''description'')
                           (\<lambda>d. Inr (JStr (py_str d), False)))"
            by (rule fa_ok_bindE) simp_all
          show ?thesis
          proof (cases "py_in ''description'' arg")
            case (Inl e)
            then have nd: "\<not> decode_error e"
              by (rule no_decodeD [rotated]) simp
            from ty hv nv False Inl nd show ?thesis
              by (simp add: format_arg_def pure)
          next
            case (Inr has_description)
            with ty hv nv False d show ?thesis
              by (cases has_description) (simp_all add: format_arg_def pure)
          qed
        next
          case ob: True
          show ?thesis
          proof (cases "py_in ''preview'' arg")
            case (Inl e)
            then have nd: "\<not> decode_error e"
              by (rule no_decodeD [rotated]) simp
            from ty hv nv ob Inl nd show ?thesis
              by (simp add: format_arg_def pure)
          next
            case hp: (Inr has_preview)
            show ?thesis
            proof (cases has_preview)
              case True
              have "fa_ok (bindE (py_getitem arg ''preview'') (\<lambda>p.
                    bindE (preview_to_dict p) (format_object arg)))"
                by (intro fa_ok_bindE) simp_all
              with ty hv nv ob hp True show ?thesis
                by (simp add: format_arg_def pure)
            next
              case np: False
              show ?thesis
              proof (cases "py_in ''objectId'' arg")
                case (Inl e)
                then have nd: "\<not> decode_error e"
                  by (rule no_decodeD [rotated]) simp
                from ty hv nv ob hp np Inl nd show ?thesis
                  by (simp add: format_arg_def pure)
              next
                case ho: (Inr has_object_id)
                show ?thesis
                proof (cases has_object_id)
                  case False
                  have "fa_ok (bindE (py_get arg ''description'' (JStr ''[Object]''))
                         (\<lambda>d. Inr (d, False)))"
                    by (rule fa_ok_bindE) simp_all
                  with ty hv nv ob hp np ho False show ?thesis
                    by (simp add: format_arg_def pure)
                next
                  case True
                  show ?thesis
                  proof (cases "py_getitem arg ''objectId''")
                    case (Inl e)
                    then have nd: "\<not> decode_error e"
                      by (rule no_decodeD [rotated]) simp
                    from ty hv nv ob hp np ho True Inl nd show ?thesis
                      by (simp add: format_arg_def pure)
                  next
                    case (Inr object_id)
                    with ty hv nv ob hp np ho True fetch [of object_id] show ?thesis
                      by (simp add: format_arg_def)
                  qed
                qed
              qed
            qed
          qed
        qed
      qed
    qed
  qed
  then show ?thesis
    unfolding Q_def .
qed



text \<open>The ways through the three event handlers and through \<^verbatim>\<open>handle_message\<close>.\<close>

lemma console_api_called_cases:
  "(\<exists>e. console_api_called env msg s = (Inl e, s) \<and> \<not> decode_error e)
   \<or> (\<exists>args e s'. format_args env args [] [] s = (Inl e, s')
         \<and> console_api_called env msg s = (Inl e, s'))
   \<or> (\<exists>args sp cp s'. format_args env args [] [] s = (Inr (sp, cp), s')
         \<and> (console_api_called env msg s = (Inr (), s')
             \<or> (\<exists>e. console_api_called env msg s = (Inl e, s') \<and> \<not> decode_error e)
             \<or> (\<exists>line. console_api_called env msg s
                         = print_complex cp (print_line line s'))))"
proof -
  define hdr where "hdr =
     bindE (py_get msg ''params'' (JObj [])) (\<lambda>params.
       bindE (py_get params ''type'' (JStr ''log'')) (\<lambda>log_type.
         bindE (py_get params ''args'' (JArr [])) (\<lambda>args.
           bindE (py_iter args) (\<lambda>arg_list. Inr (log_type, arg_list)))))"
  have nd: "no_decode hdr"
    unfolding hdr_def by (intro no_decode_bindE) simp_all
  show ?thesis
  proof (cases hdr)
    case (Inl e)
    with nd have "\<not> decode_error e" by simp
    moreover from Inl have "console_api_called env msg s = (Inl e, s)"
      by (simp add: console_api_called_def hdr_def [symmetric])
    ultimately show ?thesis by blast
  next
    case (Inr p)
    obtain log_type arg_list where p: "p = (log_type, arg_list)" by (cases p)
    obtain r s' where f: "format_args env arg_list [] [] s = (r, s')"
      by (cases "format_args env arg_list [] [] s")
    show ?thesis
    proof (cases r)
      case (Inl e)
      with Inr p f have "console_api_called env msg s = (Inl e, s')"
        by (simp add: console_api_called_def hdr_def [symmetric])
      with f Inl show ?thesis by blast
    next
      case r: (Inr q)
      obtain sp cp where q: "q = (sp, cp)" by (cases q)
      have j: "no_decode (if sp \<noteq> [] then py_join '' '' sp else Inr [])" by simp
      have "console_api_called env msg s = (Inr (), s')
             \<or> (\<exists>e. console_api_called env msg s = (Inl e, s') \<and> \<not> decode_error e)
             \<or> (\<exists>line. console_api_called env msg s
                         = print_complex cp (print_line line s'))"
      proof (cases "sp \<noteq> [] \<or> cp \<noteq> []")
        case False
        with Inr p f r q show ?thesis
          by (simp add: console_api_called_def hdr_def [symmetric])
      next
        case True
        show ?thesis
        proof (cases "if sp \<noteq> [] then py_join '' '' sp else Inr []")
          case (Inl e)
          with j have "\<not> decode_error e" by simp
          moreover from Inr p f r q True Inl have "console_api_called env msg s = (Inl e, s')"
            by (simp add: console_api_called_def hdr_def [symmetric])
          ultimately show ?thesis by blast
        next
          case ml: (Inr main_line)
          with Inr p f r q True have "console_api_called env msg s
              = print_complex cp
                  (print_line (''[console.'' @ py_str log_type @ ''] '' @ main_line) s')"
            by (simp add: console_api_called_def hdr_def [symmetric])
          then show ?thesis by blast
        qed
      qed
      with f r q show ?thesis by blast
    qed
  qed
qed


lemma exception_thrown_cases:
  "(\<exists>e. exception_thrown msg s = (Inl e, s) \<and> \<not> decode_error e)
   \<or> (\<exists>line. exception_thrown msg s = (Inr (), print_line line s))"
proof -
  define hdr where "hdr =
     bindE (py_get msg ''params'' (JObj [])) (\<lambda>params.
       bindE (py_get params ''exceptionDetails'' (JObj [])) (\<lambda>details.
         bindE (py_get details ''exception'' (JObj [])) (\<lambda>exc.
           bindE (py_get details ''text'' (JStr ''Unknown error'')) (\<lambda>text.
             py_get exc ''description'' text))))"
  have nd: "no_decode hdr"
    unfolding hdr_def by (intro no_decode_bindE) simp_all
  show ?thesis
  proof (cases hdr)
    case (Inl e)
    with nd have "\<not> decode_error e" by simp
    moreover from Inl have "exception_thrown msg s = (Inl e, s)"
      by (simp add: exception_thrown_def hdr_def [symmetric])
    ultimately show ?thesis by blast
  next
    case (Inr desc)
    then have "exception_thrown msg s
               = (Inr (), print_line (''[console.error] EXCEPTION: '' @ py_str desc) s)"
      by (simp add: exception_thrown_def hdr_def [symmetric])
    then show ?thesis by blast
  qed
qed

lemma log_entry_added_cases:
  "(\<exists>e. log_entry_added msg s = (Inl e, s) \<and> \<not> decode_error e)
   \<or> log_entry_added msg s = (Inr (), s)
   \<or> (\<exists>line. log_entry_added msg s = (Inr (), print_line line s))"
proof -
  define hdr where "hdr =
     bindE (py_get msg ''params'' (JObj [])) (\<lambda>params.
       bindE (py_get params ''entry'' (JObj [])) (\<lambda>entry.
         bindE (py_get entry ''level'' (JStr ''info'')) (\<lambda>level.
           bindE (py_get entry ''text'' (JStr [])) (\<lambda>text. Inr (level, text)))))"
  have nd: "no_decode hdr"
    unfolding hdr_def by (intro no_decode_bindE) simp_all
  show ?thesis
  proof (cases hdr)
    case (Inl e)
    with nd have "\<not> decode_error e" by simp
    moreover from Inl have "log_entry_added msg s = (Inl e, s)"
      by (simp add: log_entry_added_def hdr_def [symmetric])
    ultimately show ?thesis by blast
  next
    case (Inr p)
    obtain level body where p: "p = (level, body)" by (cases p)
    show ?thesis
    proof (cases "py_truthy body")
      case True
      with Inr p have "log_entry_added msg s
            = (Inr (), print_line (''['' @ py_str level @ ''] '' @ py_str body) s)"
        by (simp add: log_entry_added_def hdr_def [symmetric])
      then show ?thesis by blast
    next
      case False
      with Inr p have "log_entry_added msg s = (Inr (), s)"
        by (simp add: log_entry_added_def hdr_def [symmetric])
      then show ?thesis by blast
    qed
  qed
qed

lemma no_decode_reply_future [simp]: "no_decode (reply_future msg s)"
  unfolding reply_future_def
  by (intro no_decode_bindE) (simp_all add: no_decode_bindE split: option.split)

lemma handle_message_cases:
  "(\<exists>e. handle_message env msg s = (Inl e, s) \<and> \<not> decode_error e)
   \<or> (\<exists>i fut. pending s i = Some fut
         \<and> handle_message env msg s
           = set_result fut msg (s\<lparr>pending := (pending s)(i := None)\<rparr>))
   \<or> handle_message env msg s = console_api_called env msg s
   \<or> handle_message env msg s = exception_thrown msg s
   \<or> handle_message env msg s = log_entry_added msg s
   \<or> handle_message env msg s = (Inr (), s)"
proof (cases "reply_future msg s")
  case (Inl e)
  then have "\<not> decode_error e"
    by (rule no_decodeD [rotated]) simp
  with Inl show ?thesis by (simp add: handle_message_def)
next
  case (Inr target)
  show ?thesis
  proof (cases target)
    case (Some p)
    obtain i fut where p: "p = (i, fut)" by (cases p)
    from Inr Some p have "pending s i = Some fut"
      by (auto simp: reply_future_def bindE_def split: sum.splits if_splits option.splits)
    moreover from Inr Some p have "handle_message env msg s
           = set_result fut msg (s\<lparr>pending := (pending s)(i := None)\<rparr>)"
      by (simp add: handle_message_def)
    ultimately show ?thesis by blast
  next
    case None
    show ?thesis
    proof (cases "py_get msg ''method'' (JStr [])")
      case (Inl e)
      then have "\<not> decode_error e"
        by (rule no_decodeD [rotated]) simp
      with Inr None Inl show ?thesis by (simp add: handle_message_def)
    next
      case me: (Inr meth)
      with Inr None show ?thesis by (simp add: handle_message_def)
    qed
  qed
qed

section \<open>Relations that every step of the session respects\<close>

text \<open>
  A reflexive and transitive relation between states that \<^verbatim>\<open>send_command\<close>, a
  \<^verbatim>\<open>print\<close> and the delivery of a reply respect holds between the state before and
  after \<^verbatim>\<open>handle_message\<close>, and before and after \<^verbatim>\<open>run\<close>.
\<close>

lemma format_arg_rel:
  assumes refl: "\<And>s. R s s"
    and trans: "\<And>a b c. R a b \<Longrightarrow> R b c \<Longrightarrow> R a c"
    and send: "\<And>m p t dl s r s'. send_command env m p t dl s = (r, s') \<Longrightarrow> R s s'"
  shows "R s (snd (format_arg env arg s))"
proof -
  from format_arg_cases [of env arg s] obtain r s' where f: "format_arg env arg s = (r, s')"
    and c: "s' = s \<or> (\<exists>oid. s' = snd (get_object_properties env oid 2 s))" by blast
  have "R s (snd (get_object_properties env oid 2 s))" for oid
    by (rule gop_rel [where R = R]) (rule refl, erule (1) trans, erule send)
  with c refl have "R s s'" by auto
  with f show ?thesis by simp
qed

lemma format_args_rel:
  assumes refl: "\<And>s. R s s"
    and trans: "\<And>a b c. R a b \<Longrightarrow> R b c \<Longrightarrow> R a c"
    and send: "\<And>m p t dl s r s'. send_command env m p t dl s = (r, s') \<Longrightarrow> R s s'"
  shows "R s (snd (format_args env args sp cp s))"
proof (induction args arbitrary: sp cp s)
  case Nil
  show ?case by (simp add: refl)
next
  case (Cons a args)
  obtain r s1 where f: "format_arg env a s = (r, s1)" by (cases "format_arg env a s")
  have "R s (snd (format_arg env a s))"
    by (rule format_arg_rel [where R = R]) (rule refl, erule (1) trans, erule send)
  with f have 1: "R s s1" by simp
  show ?case
  proof (cases r)
    case (Inl e)
    with f 1 show ?thesis by simp
  next
    case (Inr p)
    obtain t c where p: "p = (t, c)" by (cases p)
    have "R s (snd (format_args env args sp' cp' s1))" for sp' cp'
      using 1 Cons.IH [of s1 sp' cp'] by (rule trans)
    with f Inr p show ?thesis by simp
  qed
qed

lemma print_complex_rel:
  assumes refl: "\<And>s. R s s"
    and trans: "\<And>a b c. R a b \<Longrightarrow> R b c \<Longrightarrow> R a c"
    and print: "\<And>t s. R s (print_line t s)"
  shows "R s (snd (print_complex cp s))"
proof (induction cp arbitrary: s)
  case Nil
  show ?case by (simp add: refl)
next
  case (Cons c cp)
  show ?case
  proof (cases "py_split_nl c")
    case (Inl e)
    then show ?thesis by (simp add: refl)
  next
    case (Inr ls)
    have "R s (snd (print_complex cp (print_line x s)))" for x
      using print [of s x] Cons.IH [of "print_line x s"] by (rule trans)
    with Inr show ?thesis by simp
  qed
qed

lemma console_api_called_rel:
  assumes refl: "\<And>s. R s s"
    and trans: "\<And>a b c. R a b \<Longrightarrow> R b c \<Longrightarrow> R a c"
    and send: "\<And>m p t dl s r s'. send_command env m p t dl s = (r, s') \<Longrightarrow> R s s'"
    and print: "\<And>t s. R s (print_line t s)"
  shows "R s (snd (console_api_called env msg s))"
proof -
  have fa: "R s (snd (format_args env args [] [] s))" for args
    by (rule format_args_rel [where R = R]) (rule refl, erule (1) trans, erule send)
  have pc: "R s' (snd (print_complex cp (print_line line s')))" for s' cp line
  proof -
    have "R (print_line line s') (snd (print_complex cp (print_line line s')))"
      by (rule print_complex_rel [where R = R]) (rule refl, erule (1) trans, rule print)
    with print [of s' line] show ?thesis by (rule trans)
  qed
  from console_api_called_cases [of env msg s] show ?thesis
  proof (elim disjE exE conjE)
    fix e assume "console_api_called env msg s = (Inl e, s)"
    then show ?thesis by (simp add: refl)
  next
    fix args e s'
    assume "format_args env args [] [] s = (Inl e, s')"
      and "console_api_called env msg s = (Inl e, s')"
    with fa [of args] show ?thesis by simp
  next
    fix args sp cp s'
    assume "format_args env args [] [] s = (Inr (sp, cp), s')"
      and "console_api_called env msg s = (Inr (), s')"
    with fa [of args] show ?thesis by simp
  next
    fix args sp cp s' e
    assume "format_args env args [] [] s = (Inr (sp, cp), s')"
      and "console_api_called env msg s = (Inl e, s')"
    with fa [of args] show ?thesis by simp
  next
    fix args sp cp s' line
    assume f: "format_args env args [] [] s = (Inr (sp, cp), s')"
      and c: "console_api_called env msg s = print_complex cp (print_line line s')"
    from fa [of args] f have "R s s'" by simp
    from this pc [of s' cp line] have "R s (snd (print_complex cp (print_line line s')))"
      by (rule trans)
    with c show ?thesis by simp
  qed
qed

lemma handle_message_rel:
  assumes refl: "\<And>s. R s s"
    and trans: "\<And>a b c. R a b \<Longrightarrow> R b c \<Longrightarrow> R a c"
    and send: "\<And>m p t dl s r s'. send_command env m p t dl s = (r, s') \<Longrightarrow> R s s'"
    and print: "\<And>t s. R s (print_line t s)"
    and reply: "\<And>i fut v s. pending s i = Some fut \<Longrightarrow>
                  R s (snd (set_result fut v (s\<lparr>pending := (pending s)(i := None)\<rparr>)))"
  shows "R s (snd (handle_message env msg s))"
proof -
  have c: "R s (snd (console_api_called env msg s))"
    by (rule console_api_called_rel [where R = R])
       (rule refl, erule (1) trans, erule send, rule print)
  from exception_thrown_cases [of msg s] refl print
  have e: "R s (snd (exception_thrown msg s))" by auto
  from log_entry_added_cases [of msg s] refl print
  have l: "R s (snd (log_entry_added msg s))" by auto
  from handle_message_cases [of env msg s] show ?thesis
    using c e l refl reply by auto
qed

lemma run_rel:
  assumes refl: "\<And>s. R s s"
    and trans: "\<And>a b c. R a b \<Longrightarrow> R b c \<Longrightarrow> R a c"
    and send: "\<And>m p t dl s r s'. send_command no_reply m p t dl s = (r, s') \<Longrightarrow> R s s'"
    and print: "\<And>t s. R s (print_line t s)"
    and reply: "\<And>i fut v s. pending s i = Some fut \<Longrightarrow>
                  R s (snd (set_result fut v (s\<lparr>pending := (pending s)(i := None)\<rparr>)))"
  shows "R s (run json_loads fin frames s)"
proof (induction frames arbitrary: s)
  case Nil
  show ?case by (cases fin) (simp_all add: refl print)
next
  case (Cons message rest)
  have hm: "R s (snd (handle_message no_reply msg s))" for msg
    by (rule handle_message_rel [where R = R])
       (rule refl, erule (1) trans, erule send, rule print, erule reply)
  have step: "R s (run json_loads fin rest s')" if "R s s'" for s'
    using that Cons.IH [of s'] by (rule trans)
  have pstep: "R s (run json_loads fin rest (print_line x s'))" if "R s s'" for s' x
  proof -
    from that print [of s' x] have "R s (print_line x s')" by (rule trans)
    then show ?thesis by (rule step)
  qed
  show ?case
  proof (cases "running s")
    case False
    then show ?thesis by (simp add: refl)
  next
    case True
    show ?thesis
    proof (cases "json_loads message")
      case (Inl e)
      with True show ?thesis
        by (cases e) (simp_all add: step pstep refl)
    next
      case (Inr msg)
      obtain r s' where h: "handle_message no_reply msg s = (r, s')"
        by (cases "handle_message no_reply msg s")
      with hm [of msg] have "R s s'" by simp
      with True Inr h show ?thesis
        by (cases r; cases "projl r") (simp_all add: step pstep)
    qed
  qed
qed




section \<open>Errors in the read loop\<close>



section \<open>Request ids are unique and grow\<close>

lemma frame_id_command:
  "frame_id (JObj (if py_truthy params
                   then dict_set (command i meth) (KStr ''params'') params
                   else command i meth)) = Some i"
  by (simp add: frame_id_def command_def key_eq_def key_norm_def)

lemma map_filter_snoc:
  "List.map_filter f (xs @ [x]) = List.map_filter f xs @ (case f x of None \<Rightarrow> [] | Some y \<Rightarrow> [y])"
  by (simp add: List.map_filter_def split: option.split)

lemma send_command_state:
  "\<exists>r s1. send_command_start meth params s = (r, s1)
     \<and> msg_id (snd (send_command env meth params timeout deadline s)) = msg_id s1
     \<and> sent (snd (send_command env meth params timeout deadline s)) = sent s1"
proof -
  obtain r s1 where st: "send_command_start meth params s = (r, s1)"
    by (cases "send_command_start meth params s")
  show ?thesis
  proof (cases r)
    case (Inl e)
    with st show ?thesis by (simp add: send_command_def)
  next
    case (Inr p)
    obtain i fut where p: "p = (i, fut)" by (cases p)
    obtain r2 s2 where a: "await_reply env i fut timeout deadline s1 = (r2, s2)"
      by (cases "await_reply env i fut timeout deadline s1")
    from await_reply_eff [OF a] st Inr p a show ?thesis by (simp add: send_command_def)
  qed
qed

lemma send_command_ids:
  assumes "ids_increasing s"
  shows "list_all (\<lambda>i. i < msg_id s + 1) (sent_ids s)
         \<and> msg_id (snd (send_command env meth params timeout deadline s)) = msg_id s + 1
         \<and> ids_increasing (snd (send_command env meth params timeout deadline s))
         \<and> (ws s = WsOpen \<longrightarrow>
              sent_ids (snd (send_command env meth params timeout deadline s))
              = sent_ids s @ [msg_id s + 1])"
proof -
  from send_command_state [of meth params s env timeout deadline]
  obtain r s1 where st: "send_command_start meth params s = (r, s1)"
    and m: "msg_id (snd (send_command env meth params timeout deadline s)) = msg_id s1"
    and se: "sent (snd (send_command env meth params timeout deadline s)) = sent s1" by blast
  from assms have lt: "list_all (\<lambda>i. i < msg_id s + 1) (sent_ids s)"
    by (auto simp: ids_increasing_def list_all_iff)
  show ?thesis
  proof (cases "ws s = WsOpen")
    case True
    from st send_command_start_open [OF True, of meth params]
    have "msg_id s1 = msg_id s + 1"
      and "sent s1 = sent s @ [JObj (if py_truthy params
                   then dict_set (command (msg_id s + 1) meth) (KStr ''params'') params
                   else command (msg_id s + 1) meth)]" by auto
    with assms lt m se True show ?thesis
      by (auto simp: ids_increasing_def sent_ids_def map_filter_snoc frame_id_command
            sorted_wrt_append list_all_iff simp del: dict_set.simps)
  next
    case False
    from st send_command_start_not_open [OF False, of meth params]
    have "msg_id s1 = msg_id s + 1" and "sent s1 = sent s" by auto
    with assms lt m se False show ?thesis
      by (auto simp: ids_increasing_def sent_ids_def list_all_iff)
  qed
qed

lemma run_ids_increasing:
  "ids_increasing s \<Longrightarrow> ids_increasing (run json_loads fin frames s)"
proof -
  have "ids_increasing s \<longrightarrow> ids_increasing (run json_loads fin frames s)"
  proof (rule run_rel [where R = "\<lambda>s s'. ids_increasing s \<longrightarrow> ids_increasing s'"])
    fix m p t dl s r s'
    assume "send_command no_reply m p t dl s = (r, s')"
    with send_command_ids [of s no_reply m p t dl]
    show "ids_increasing s \<longrightarrow> ids_increasing s'" by auto
  qed (simp_all add: ids_increasing_def sent_ids_def print_line_def set_result_def)
  then show "ids_increasing s \<Longrightarrow> ids_increasing (run json_loads fin frames s)" by simp
qed

lemma run_sent_grows:
  "\<exists>frames'. sent (run json_loads fin frames s) = sent s @ frames'"
proof (rule run_rel [where R = "\<lambda>s s'. \<exists>frames'. sent s' = sent s @ frames'"])
  fix m p t dl s r s'
  assume a: "send_command no_reply m p t dl s = (r, s')"
  from send_command_state [of m p s no_reply t dl]
  obtain r1 s1 where st: "send_command_start m p s = (r1, s1)"
    and se: "sent (snd (send_command no_reply m p t dl s)) = sent s1" by blast
  from st have "\<exists>frames'. sent s1 = sent s @ frames'"
    by (auto simp: send_command_start_def ws_send_def Let_def split: ws_state.splits)
  with se a show "\<exists>frames'. sent s' = sent s @ frames'" by simp
qed (auto simp: print_line_def set_result_def)

lemma connected_ids: "ids_increasing (connected url)"
  by (simp add: connected_eq ids_increasing_def sent_ids_def List.map_filter_def frame_id_def
        command_def key_eq_def key_norm_def)

text \<open>
  C5. The handshake writes the ids 1, 2 and 3 and leaves \<^verbatim>\<open>msg_id\<close> at 3; the first
  request after it gets id 4. Whatever frames the session then handles, and however the
  channel ends, every frame the session has written carries an id, the ids grow strictly
  in the order of writing and are pairwise distinct, and the first three are 1, 2, 3. In
  every state in which the ids written so far grow strictly and are not above
  \<^verbatim>\<open>msg_id\<close>, \<^verbatim>\<open>send_command\<close> allocates \<^verbatim>\<open>msg_id + 1\<close>, which is above every id written
  before; on an open channel this is the id of the one frame it writes.
\<close>

theorem request_ids_strictly_increasing:
  "map frame_id (sent (connected url)) = [Some 1, Some 2, Some 3]
   \<and> msg_id (connected url) = 3
   \<and> fst (send_command_start meth params (connected url)) = Inr (4, 0)
   \<and> ids_increasing (run json_loads fin frames (connected url))
   \<and> distinct (sent_ids (run json_loads fin frames (connected url)))
   \<and> take 3 (sent_ids (run json_loads fin frames (connected url))) = [1, 2, 3]
   \<and> (ids_increasing s \<longrightarrow>
        list_all (\<lambda>i. i < msg_id s + 1) (sent_ids s)
        \<and> msg_id (snd (send_command env meth params timeout deadline s)) = msg_id s + 1
        \<and> ids_increasing (snd (send_command env meth params timeout deadline s))
        \<and> (ws s = WsOpen \<longrightarrow>
             sent_ids (snd (send_command env meth params timeout deadline s))
             = sent_ids s @ [msg_id s + 1]))"
proof -
  have 1: "map frame_id (sent (connected url)) = [Some 1, Some 2, Some 3]
           \<and> msg_id (connected url) = 3
           \<and> fst (send_command_start meth params (connected url)) = Inr (4, 0)"
    by (simp add: connected_eq frame_id_def command_def key_eq_def key_norm_def
          send_command_start_def ws_send_def Let_def)
  have 2: "ids_increasing (run json_loads fin frames (connected url))"
    using connected_ids by (rule run_ids_increasing)
  then have 3: "distinct (sent_ids (run json_loads fin frames (connected url)))"
    by (simp add: ids_increasing_def strict_sorted_iff)
  from run_sent_grows [of json_loads fin frames "connected url"]
  obtain frames' where "sent (run json_loads fin frames (connected url))
                        = sent (connected url) @ frames'" ..
  then have 4: "take 3 (sent_ids (run json_loads fin frames (connected url))) = [1, 2, 3]"
    by (simp add: sent_ids_def connected_eq List.map_filter_def frame_id_def command_def
          key_eq_def key_norm_def)
  from 1 2 3 4 send_command_ids [of s env meth params timeout deadline] show ?thesis
    by blast
qed

theorem request_ids_strictly_increasing_witness:
  "ids_increasing (connected ''ws://localhost:9222'')
   \<and> sent_ids (snd (send_command no_reply ''Runtime.getProperties''
                      (get_properties_params (JStr ''obj-1'')) 5 (Some 2)
                      (connected ''ws://localhost:9222''))) = [1, 2, 3, 4]
   \<and> sent_ids (run frames_loads EndOfStream [''A'', ''B'', ''C'', ''A'']
                 (connected ''ws://localhost:9222'')) = [1, 2, 3, 4, 5]"
  using request_ids_strictly_increasing
          [where s = "connected ''ws://localhost:9222''" and env = no_reply
             and meth = "''Runtime.getProperties''"
             and params = "get_properties_params (JStr ''obj-1'')" and timeout = 5
             and deadline = "Some 2" and url = "''ws://localhost:9222''"
             and json_loads = frames_loads and fin = EndOfStream
             and frames = "[''A'', ''B'', ''C'', ''A'']"]
  by (simp add: connected_eq ids_increasing_def sent_ids_def List.map_filter_def frame_id_def
        command_def key_eq_def key_norm_def
        ws_send_def frames_loads_def handle_frame_def
        reply_frame_def log_frame_def handle_message_def reply_future_def
        console_event_def console_api_called_def format_arg_def py_defs
        get_object_properties.simps gop_try.simps wait_for_def send_command_def
        send_command_start_def await_reply_def no_reply_def Let_def get_properties_params_def
        gop_except_def set_result_def pending_key_def log_entry_added_def)

end
